theory Spec2Isabelle
  imports Main "HOL-Library.Word"
begin

section \<open>Profiling statistics of \<open>profile.cpp\<close>\<close>

text \<open>
  The development embeds the statistics part of \<open>src/src/profile.cpp\<close>:
  \<open>ProfilingCollector::Stats\<close> (a summary of the samples of one time slot), the
  collector with its array of slots, and the global list of collectors.

  The header \<open>profile.hpp\<close> is not among the sources. What the code takes from it is
  kept open here:
  \<^item> the width of the sample counter \<open>num_samples\<close> is a type parameter \<open>'c\<close>
    (the counter is a \<open>'c word\<close>); the three times are \<open>uint64_t\<close>, as the
    signatures of \<open>record_time\<close> and \<open>get_avg_time\<close> show;
  \<^item> the constants \<open>SLOT_DURATION_MS\<close> and \<open>NUM_SLOTS\<close> are the two fields of
    a \<open>config\<close> that every collector operation takes as its first argument.
\<close>

subsection \<open>\<open>ProfilingCollector::Stats\<close>\<close>

type_synonym u64 = "64 word"
type_synonym u32 = "32 word"

record 'n Stats =
  min_time :: u64
  max_time :: u64
  total_time :: u64
  num_samples :: 'n

text \<open>The constructor \<open>Stats::Stats()\<close>.\<close>

definition Stats_init :: "('c::len) word Stats" where
  "Stats_init = \<lparr>min_time = 0, max_time = 0, total_time = 0, num_samples = 0\<rparr>"

text \<open>\<open>Stats::reset()\<close>.\<close>

definition Stats_reset :: "('c::len) word Stats \<Rightarrow> 'c word Stats" where
  "Stats_reset s = s\<lparr>min_time := 0, max_time := 0, total_time := 0, num_samples := 0\<rparr>"

text \<open>
  \<open>Stats::get_avg_time()\<close>. The division is the unsigned division of C++, in 64 bits:
  the counter is converted to the type of \<open>total_time\<close>.
\<close>

definition get_avg_time :: "('c::len) word Stats \<Rightarrow> u64" where
  "get_avg_time s =
     (if num_samples s > 0 then total_time s div ucast (num_samples s) else 0)"

text \<open>\<open>Stats::record_time(duration)\<close>; \<open>+\<close> on words wraps around as in C++.\<close>

definition Stats_record_time :: "('c::len) word Stats \<Rightarrow> u64 \<Rightarrow> 'c word Stats" where
  "Stats_record_time s duration =
     (let s1 =
        (if num_samples s = 0
         then s\<lparr>min_time := duration, max_time := duration, total_time := duration\<rparr>
         else
           (let s2 = (if min_time s > duration then s\<lparr>min_time := duration\<rparr> else s);
                s3 = (if max_time s2 < duration then s2\<lparr>max_time := duration\<rparr> else s2)
            in s3\<lparr>total_time := total_time s3 + duration\<rparr>))
      in s1\<lparr>num_samples := num_samples s1 + 1\<rparr>)"

text \<open>\<open>Stats::operator+=(rhs)\<close>, the merge of two summaries.\<close>

definition Stats_add_assign :: "('c::len) word Stats \<Rightarrow> 'c word Stats \<Rightarrow> 'c word Stats" where
  "Stats_add_assign s rhs =
     (if num_samples rhs > 0 then
        (let s1 = (if num_samples s = 0 \<or> min_time s > min_time rhs
                   then s\<lparr>min_time := min_time rhs\<rparr> else s);
             s2 = (if num_samples s1 = 0 \<or> max_time s1 < max_time rhs
                   then s1\<lparr>max_time := max_time rhs\<rparr> else s1);
             s3 = s2\<lparr>total_time := total_time s2 + total_time rhs\<rparr>
         in s3\<lparr>num_samples := num_samples s3 + num_samples rhs\<rparr>)
      else s)"

text \<open>
  A summary is canonical when a zero counter comes with zeroed times, as the constructor
  and \<open>reset\<close> leave it.
\<close>

definition canonical :: "('c::len) word Stats \<Rightarrow> bool" where
  "canonical s = (num_samples s = 0 \<longrightarrow> s = Stats_init)"

text \<open>
  The summaries that the operations build, as terms: the constructor, \<open>reset\<close>,
  \<open>record_time\<close> and \<open>operator+=\<close>. \<open>build\<close> runs the operations, \<open>recorded\<close>
  lists the durations that went in (none before a \<open>reset\<close> survives).
\<close>

datatype history =
    Fresh
  | Reset history
  | Record history u64
  | Merge history history

fun build :: "history \<Rightarrow> ('c::len) word Stats" where
  "build Fresh = Stats_init"
| "build (Reset h) = Stats_reset (build h)"
| "build (Record h d) = Stats_record_time (build h) d"
| "build (Merge h1 h2) = Stats_add_assign (build h1) (build h2)"

fun recorded :: "history \<Rightarrow> u64 list" where
  "recorded Fresh = []"
| "recorded (Reset h) = []"
| "recorded (Record h d) = recorded h @ [d]"
| "recorded (Merge h1 h2) = recorded h1 @ recorded h2"

text \<open>
  The durations \<open>ds\<close> add up below \<open>2 ^ 64\<close> and are fewer than \<open>2 ^ w\<close>: neither
  \<open>total_time\<close> nor a \<open>w\<close>-bit counter wraps around on them.
\<close>

definition no_overflow :: "nat \<Rightarrow> u64 list \<Rightarrow> bool" where
  "no_overflow w ds \<longleftrightarrow> sum_list (map unat ds) < 2 ^ 64 \<and> length ds < 2 ^ w"

text \<open>What a summary of exactly the durations \<open>ds\<close> holds, read as natural numbers.\<close>

definition exact :: "('c::len) word Stats \<Rightarrow> u64 list \<Rightarrow> bool" where
  "exact s ds \<longleftrightarrow>
     unat (num_samples s) = length ds \<and>
     unat (total_time s) = sum_list (map unat ds) \<and>
     length ds * unat (min_time s) \<le> sum_list (map unat ds) \<and>
     sum_list (map unat ds) \<le> length ds * unat (max_time s)"

subsection \<open>\<open>ProfilingCollector\<close>: the ring of slots\<close>

text \<open>
  The two constants of the header, and whether the program is compiled with \<open>NDEBUG\<close>
  (then \<open>assert\<close> does nothing). \<open>config_ok\<close> says what any declaration of an array of
  \<open>NUM_SLOTS\<close> slots and of a divisor \<open>SLOT_DURATION_MS * 1000\<close> needs: both are
  positive, and both fit a 32-bit \<open>int\<close>, so that the arithmetic on them does not depend
  on the integer types the header gives them.
\<close>

record config =
  SLOT_DURATION_MS :: nat
  NUM_SLOTS :: nat
  NDEBUG :: bool

definition config_ok :: "config \<Rightarrow> bool" where
  "config_ok cfg \<longleftrightarrow>
     0 < SLOT_DURATION_MS cfg \<and> SLOT_DURATION_MS cfg * 1000 < 2 ^ 31 \<and>
     0 < NUM_SLOTS cfg \<and> NUM_SLOTS cfg < 2 ^ 31"

text \<open>
  The fields \<open>key\<close>, \<open>head_time_bucket\<close> and the array \<open>slots\<close>; the array is a
  list, of length \<open>NUM_SLOTS\<close> in every state of the program. (The field
  \<open>this_iter\<close> belongs to the list of collectors, below.)
\<close>

record 'n ProfilingCollector =
  key :: string
  head_time_bucket :: u64
  slots :: "'n Stats list"

text \<open>
  What can go wrong: the \<open>assert\<close> of \<open>record_time\<close>, an access outside the array
  \<open>slots\<close> (undefined behaviour in C++), and, for the list of collectors, a call through
  the null pointer or \<open>erase\<close> with an iterator that is not in the list.
\<close>

datatype error = AssertionFailed | OutOfBounds | NullPointer | InvalidIterator

text \<open>Microseconds to slot number: the division by \<open>SLOT_DURATION_MS * 1000\<close>.\<close>

definition time_bucket :: "config \<Rightarrow> u64 \<Rightarrow> u64" where
  "time_bucket cfg t = t div of_nat (SLOT_DURATION_MS cfg * 1000)"

text \<open>
  \<open>ProfilingCollector::reset(begin_idx, end_idx)\<close>: the loop over
  \<open>begin_idx \<le> i < end_idx\<close>, each \<open>slots[i]\<close> checked against the array.
\<close>

function reset_slots ::
  "('c::len) word Stats list \<Rightarrow> nat \<Rightarrow> nat \<Rightarrow> 'c word Stats list option" where
  "reset_slots xs i end_idx =
     (if i < end_idx then
        (if i < length xs then reset_slots (xs[i := Stats_reset (xs ! i)]) (Suc i) end_idx
         else None)
      else Some xs)"
  by pat_completeness auto
termination
  by (relation "measure (\<lambda>(xs, i, end_idx). end_idx - i)") auto

text \<open>
  \<open>memmove(slots + dst, slots + src, sizeof(*slots) * n)\<close> on the array: \<open>n\<close> slots
  from index \<open>src\<close> are copied to index \<open>dst\<close>; the ranges may overlap.
\<close>

definition memmove_slots :: "'a list \<Rightarrow> nat \<Rightarrow> nat \<Rightarrow> nat \<Rightarrow> 'a list option" where
  "memmove_slots xs dst src n =
     (if dst + n \<le> length xs \<and> src + n \<le> length xs
      then Some (take dst xs @ take n (drop src xs) @ drop (dst + n) xs)
      else None)"

text \<open>
  The constructor, without the registration: \<open>head_time_bucket(0)\<close> and \<open>reset()\<close>
  over the whole array (the default arguments of \<open>reset\<close> are in the header; the
  members of the array are constructed by \<open>Stats()\<close>).
\<close>

definition ProfilingCollector_init :: "config \<Rightarrow> string \<Rightarrow> ('c::len) word ProfilingCollector" where
  "ProfilingCollector_init cfg k =
     \<lparr>key = k, head_time_bucket = 0, slots = replicate (NUM_SLOTS cfg) Stats_init\<rparr>"

text \<open>
  \<open>record_time\<close>, first part (lines 107 to 124): the ring is moved to the slot of the
  clock. \<open>now_us\<close> is what \<open>get_monotonic_us()\<close> returns in this call. The
  \<open>assert\<close> stops the call unless the program is compiled with \<open>NDEBUG\<close>; then
  \<open>shift_by\<close> wraps around for a clock behind \<open>head_time_bucket\<close>.
\<close>

definition record_time_shift ::
  "config \<Rightarrow> u64 \<Rightarrow> ('c::len) word ProfilingCollector \<Rightarrow> error + 'c word ProfilingCollector" where
  "record_time_shift cfg now_us c =
     (let now_time_bucket = time_bucket cfg now_us in
      if now_time_bucket \<noteq> head_time_bucket c then
        if \<not> NDEBUG cfg \<and> \<not> now_time_bucket > head_time_bucket c then Inl AssertionFailed
        else
          (let shift_by = now_time_bucket - head_time_bucket c;
               keep = shift_by < of_nat (NUM_SLOTS cfg);
               slots_to_keep = (if keep then of_nat (NUM_SLOTS cfg) - shift_by else 0);
               moved = (if keep
                        then memmove_slots (slots c) (unat shift_by) 0 (unat slots_to_keep)
                        else Some (slots c))
           in case moved of
                None \<Rightarrow> Inl OutOfBounds
              | Some xs \<Rightarrow>
                  (case reset_slots xs 0 (unat (of_nat (NUM_SLOTS cfg) - slots_to_keep)) of
                     None \<Rightarrow> Inl OutOfBounds
                   | Some ys \<Rightarrow> Inr (c\<lparr>slots := ys, head_time_bucket := now_time_bucket\<rparr>)))
      else Inr c)"

text \<open>\<open>record_time\<close>, second part (lines 126 to 132): the sample goes to its slot.\<close>

definition record_time_store ::
  "config \<Rightarrow> ('c::len) word ProfilingCollector \<Rightarrow> u64 \<Rightarrow> u64 \<Rightarrow> error + 'c word ProfilingCollector" where
  "record_time_store cfg c begin_time duration =
     (let begin_time_bucket = time_bucket cfg begin_time in
      if begin_time_bucket \<le> head_time_bucket c
         \<and> begin_time_bucket + of_nat (NUM_SLOTS cfg) > head_time_bucket c
      then
        (let slot_idx = unat (head_time_bucket c - begin_time_bucket) in
         if slot_idx < length (slots c)
         then Inr (c\<lparr>slots := (slots c)[slot_idx := Stats_record_time (slots c ! slot_idx) duration]\<rparr>)
         else Inl OutOfBounds)
      else Inr c)"

text \<open>\<open>ProfilingCollector::record_time(begin_time, duration)\<close>.\<close>

definition record_time ::
  "config \<Rightarrow> u64 \<Rightarrow> ('c::len) word ProfilingCollector \<Rightarrow> u64 \<Rightarrow> u64
     \<Rightarrow> error + 'c word ProfilingCollector" where
  "record_time cfg now_us c begin_time duration =
     (case record_time_shift cfg now_us c of
        Inl e \<Rightarrow> Inl e
      | Inr c1 \<Rightarrow> record_time_store cfg c1 begin_time duration)"

text \<open>
  The loop of \<open>accumulate_stats\<close>: \<open>for(s = stats_begin; s != stats_end; ++s)\<close>, with
  the pointers \<open>s\<close> and \<open>stats_end\<close> as indices into \<open>slots\<close>. A read at or after the end of the
  array is \<open>None\<close>.
\<close>

function accumulate_loop ::
  "('c::len) word Stats list \<Rightarrow> nat \<Rightarrow> nat \<Rightarrow> 'c word Stats \<Rightarrow> 'c word Stats option" where
  "accumulate_loop xs s stats_end acc =
     (if s \<noteq> stats_end then
        (if s < length xs then accumulate_loop xs (Suc s) stats_end (Stats_add_assign acc (xs ! s))
         else None)
      else Some acc)"
  by pat_completeness auto
termination
  by (relation "measure (\<lambda>(xs, s, stats_end, acc). length xs - s)") auto

text \<open>\<open>ProfilingCollector::accumulate_stats(window_duration_ms)\<close>.\<close>

definition accumulate_stats ::
  "config \<Rightarrow> ('c::len) word ProfilingCollector \<Rightarrow> u32 \<Rightarrow> 'c word Stats option" where
  "accumulate_stats cfg c window_duration_ms =
     (let stats_begin = 1;
          stats_end = min (stats_begin + unat window_duration_ms div SLOT_DURATION_MS cfg)
                          (NUM_SLOTS cfg)
      in accumulate_loop (slots c) stats_begin stats_end Stats_init)"

text \<open>
  The merge of the slots with indices in \<open>[1, min (1 + w / SLOT_DURATION_MS) NUM_SLOTS)\<close>,
  as the specification words it.
\<close>

definition merged_window :: "config \<Rightarrow> ('c::len) word Stats list \<Rightarrow> u32 \<Rightarrow> 'c word Stats" where
  "merged_window cfg xs w =
     foldl Stats_add_assign Stats_init
       (map (\<lambda>i. xs ! i) [1 ..< min (1 + unat w div SLOT_DURATION_MS cfg) (NUM_SLOTS cfg)])"

text \<open>
  What the profiling window shows of a summary: minimum, maximum, average and number of
  samples (the columns of \<open>ProfilingDataViewModel::GetValue\<close>).
\<close>

definition summary :: "('c::len) word Stats \<Rightarrow> u64 \<times> u64 \<times> u64 \<times> 'c word" where
  "summary s = (min_time s, max_time s, get_avg_time s, num_samples s)"

subsection \<open>A run with slots of one second and five slots\<close>

definition scenario_config :: config where
  "scenario_config = \<lparr>SLOT_DURATION_MS = 1000, NUM_SLOTS = 5, NDEBUG = False\<rparr>"

definition fresh_collector :: "32 word ProfilingCollector" where
  "fresh_collector = ProfilingCollector_init scenario_config ''probe''"

text \<open>The collector after one sample of 10 microseconds in the slot of the clock.\<close>

definition one_sample :: "32 word ProfilingCollector" where
  "one_sample =
     \<lparr>key = ''probe'', head_time_bucket = 0,
      slots = [\<lparr>min_time = 10, max_time = 10, total_time = 10, num_samples = 1\<rparr>,
               Stats_init, Stats_init, Stats_init, Stats_init]\<rparr>"

text \<open>A collector with one sample of 20 in slot 1 and one of 10 in slot 2.\<close>

definition two_slots :: "32 word ProfilingCollector" where
  "two_slots =
     \<lparr>key = ''probe'', head_time_bucket = 2,
      slots = [Stats_init,
               \<lparr>min_time = 20, max_time = 20, total_time = 20, num_samples = 1\<rparr>,
               \<lparr>min_time = 10, max_time = 10, total_time = 10, num_samples = 1\<rparr>,
               Stats_init, Stats_init]\<rparr>"

text \<open>
  Two calls of \<open>record_time\<close> on the fresh collector, each with the value of the clock
  in that call, the begin of the sample and its duration, all in microseconds.
\<close>

definition two_records ::
  "u64 \<Rightarrow> u64 \<Rightarrow> u64 \<Rightarrow> u64 \<Rightarrow> u64 \<Rightarrow> u64 \<Rightarrow> error + 32 word ProfilingCollector" where
  "two_records now1 begin1 duration1 now2 begin2 duration2 =
     (case record_time scenario_config now1 fresh_collector begin1 duration1 of
        Inl e \<Rightarrow> Inl e
      | Inr c1 \<Rightarrow> record_time scenario_config now2 c1 begin2 duration2)"

text \<open>
  The run of the specification: a sample of 10 that begins at 0 with the clock at 0, a
  second sample with the clock at \<open>now2\<close>, then \<open>accumulate_stats\<close> over a window of
  \<open>w\<close> milliseconds. (\<open>accumulate_stats\<close> does not read the clock.)
\<close>

definition scenario ::
  "u64 \<Rightarrow> u64 \<Rightarrow> u64 \<Rightarrow> u32 \<Rightarrow> error + (u64 \<times> u64 \<times> u64 \<times> 32 word) option" where
  "scenario now2 begin2 duration2 w =
     (case two_records 0 0 10 now2 begin2 duration2 of
        Inl e \<Rightarrow> Inl e
      | Inr c2 \<Rightarrow> Inr (map_option summary (accumulate_stats scenario_config c2 w)))"

subsection \<open>The list of collectors\<close>

text \<open>
  The static member \<open>collectors\<close> is a pointer to a \<open>std::list\<close> of pointers to
  collectors: \<open>None\<close> is the null pointer, \<open>Some xs\<close> a list that holds the addresses
  \<open>xs\<close>. A collector is named by its address \<open>this\<close>. The iterator \<open>this_iter\<close>,
  taken in the constructor, points at the entry that holds \<open>this\<close>; it is valid as long
  as that entry is in the list, so \<open>erase(this_iter)\<close> removes the entry of \<open>this\<close>
  when there is one and is undefined otherwise.
\<close>

type_synonym ptr = nat
type_synonym registry = "ptr list option"

text \<open>\<open>ProfilingCollector::get_collectors()\<close>.\<close>

definition get_collectors :: "registry \<Rightarrow> ptr list" where
  "get_collectors collectors = (case collectors of Some xs \<Rightarrow> xs | None \<Rightarrow> [])"

text \<open>The constructor, lines 65 to 71: the list is allocated when there is none.\<close>

definition ProfilingCollector_construct :: "registry \<Rightarrow> ptr \<Rightarrow> registry" where
  "ProfilingCollector_construct collectors this =
     (let xs = (case collectors of None \<Rightarrow> [] | Some xs \<Rightarrow> xs)
      in Some (xs @ [this]))"

text \<open>The destructor: \<open>erase\<close>, then the list is freed when it is empty.\<close>

definition ProfilingCollector_destruct :: "registry \<Rightarrow> ptr \<Rightarrow> error + registry" where
  "ProfilingCollector_destruct collectors this =
     (case collectors of
        None \<Rightarrow> Inl NullPointer
      | Some xs \<Rightarrow>
          if this \<in> set xs
          then (let ys = remove1 this xs in if ys = [] then Inr None else Inr (Some ys))
          else Inl InvalidIterator)"

text \<open>Collectors come and go; a run of such events stops at the first error.\<close>

datatype event = Construct ptr | Destroy ptr

fun registry_step :: "registry \<Rightarrow> event \<Rightarrow> error + registry" where
  "registry_step r (Construct p) = Inr (ProfilingCollector_construct r p)"
| "registry_step r (Destroy p) = ProfilingCollector_destruct r p"

fun registry_run :: "registry \<Rightarrow> event list \<Rightarrow> error + registry" where
  "registry_run r [] = Inr r"
| "registry_run r (e # es) =
     (case registry_step r e of Inl err \<Rightarrow> Inl err | Inr r' \<Rightarrow> registry_run r' es)"

text \<open>
  The lifetimes of C++ objects: an object is constructed at an address that holds no
  live object, and destroyed once, while it is alive. \<open>L\<close> is the set of the addresses
  of the live collectors before the events.
\<close>

fun lifetimes_ok :: "ptr set \<Rightarrow> event list \<Rightarrow> bool" where
  "lifetimes_ok L [] = True"
| "lifetimes_ok L (Construct p # es) = (p \<notin> L \<and> lifetimes_ok (insert p L) es)"
| "lifetimes_ok L (Destroy p # es) = (p \<in> L \<and> lifetimes_ok (L - {p}) es)"

text \<open>
  The live collectors in registration order, as the specification words it: the
  constructions, in their order, that no later event destroys.
\<close>

fun live_in_order :: "event list \<Rightarrow> ptr list" where
  "live_in_order [] = []"
| "live_in_order (Construct p # es) =
     (if Destroy p \<in> set es then [] else [p]) @ live_in_order es"
| "live_in_order (Destroy p # es) = live_in_order es"

section \<open>Properties of \<open>Stats\<close>\<close>

declare accumulate_loop.simps [simp del] reset_slots.simps [simp del]

lemma Stats_reset_eq: "Stats_reset s = Stats_init"
  by (cases s) (simp add: Stats_reset_def Stats_init_def)

lemma add_assign_sel:
  "min_time (Stats_add_assign s r) =
     (if num_samples r = 0 then min_time s
      else if num_samples s = 0 then min_time r else min (min_time s) (min_time r))"
  "max_time (Stats_add_assign s r) =
     (if num_samples r = 0 then max_time s
      else if num_samples s = 0 then max_time r else max (max_time s) (max_time r))"
  "total_time (Stats_add_assign s r) =
     (if num_samples r = 0 then total_time s else total_time s + total_time r)"
  "num_samples (Stats_add_assign s r) = num_samples s + num_samples r"
  "Stats.more (Stats_add_assign s r) = Stats.more s"
  by (auto simp add: Stats_add_assign_def Let_def word_gt_0 min_def max_def)

lemma record_sel:
  "min_time (Stats_record_time s d) = (if num_samples s = 0 then d else min (min_time s) d)"
  "max_time (Stats_record_time s d) = (if num_samples s = 0 then d else max (max_time s) d)"
  "total_time (Stats_record_time s d) = (if num_samples s = 0 then d else total_time s + d)"
  "num_samples (Stats_record_time s d) = num_samples s + 1"
  by (auto simp add: Stats_record_time_def Let_def min_def max_def)

lemma canonical_zero:
  "canonical s \<Longrightarrow> num_samples s = 0 \<Longrightarrow>
   min_time s = 0 \<and> max_time s = 0 \<and> total_time s = 0"
  by (simp add: canonical_def Stats_init_def)

lemma word_sum_zero_iff:
  fixes x y :: "('c::len) word"
  assumes "unat x + unat y < 2 ^ LENGTH('c)"
  shows "x + y = 0 \<longleftrightarrow> x = 0 \<and> y = 0"
proof -
  have "unat (x + y) = unat x + unat y"
    using assms by (simp add: unat_add_lem)
  then show ?thesis
    by (metis add_is_0 unat_eq_0)
qed

lemma add_assign_commute:
  assumes ca: "canonical a" and cb: "canonical b"
  shows "Stats_add_assign a b = Stats_add_assign b a"
proof (rule Stats.equality)
  note z = canonical_zero [OF ca] canonical_zero [OF cb]
  show "min_time (Stats_add_assign a b) = min_time (Stats_add_assign b a)"
    using z by (simp add: add_assign_sel min.commute)
  show "max_time (Stats_add_assign a b) = max_time (Stats_add_assign b a)"
    using z by (simp add: add_assign_sel max.commute)
  show "total_time (Stats_add_assign a b) = total_time (Stats_add_assign b a)"
    using z by (simp add: add_assign_sel add.commute)
  show "num_samples (Stats_add_assign a b) = num_samples (Stats_add_assign b a)"
    by (simp add: add_assign_sel add.commute)
  show "Stats.more (Stats_add_assign a b) = Stats.more (Stats_add_assign b a)"
    by simp
qed

lemma add_assign_identity: "num_samples z = 0 \<Longrightarrow> Stats_add_assign a z = a"
  by (simp add: Stats_add_assign_def)

lemma add_assign_assoc:
  fixes a b c :: "('c::len) word Stats"
  assumes cb: "canonical b"
    and n: "unat (num_samples a) + unat (num_samples b) + unat (num_samples c) < 2 ^ LENGTH('c)"
  shows "Stats_add_assign (Stats_add_assign a b) c = Stats_add_assign a (Stats_add_assign b c)"
proof (rule Stats.equality)
  have ab: "num_samples a + num_samples b = 0 \<longleftrightarrow> num_samples a = 0 \<and> num_samples b = 0"
    using n by (intro word_sum_zero_iff) simp
  have bc: "num_samples b + num_samples c = 0 \<longleftrightarrow> num_samples b = 0 \<and> num_samples c = 0"
    using n by (intro word_sum_zero_iff) simp
  show "min_time (Stats_add_assign (Stats_add_assign a b) c)
      = min_time (Stats_add_assign a (Stats_add_assign b c))"
    by (simp add: add_assign_sel ab bc min.assoc)
  show "max_time (Stats_add_assign (Stats_add_assign a b) c)
      = max_time (Stats_add_assign a (Stats_add_assign b c))"
    by (simp add: add_assign_sel ab bc max.assoc)
  show "total_time (Stats_add_assign (Stats_add_assign a b) c)
      = total_time (Stats_add_assign a (Stats_add_assign b c))"
    using canonical_zero [OF cb] by (simp add: add_assign_sel ab bc add.assoc)
  show "num_samples (Stats_add_assign (Stats_add_assign a b) c)
      = num_samples (Stats_add_assign a (Stats_add_assign b c))"
    by (simp add: add_assign_sel add.assoc)
  show "Stats.more (Stats_add_assign (Stats_add_assign a b) c)
      = Stats.more (Stats_add_assign a (Stats_add_assign b c))"
    by (simp add: add_assign_sel)
qed

text \<open>
  Claim C6, as the code has it. \<open>operator+=\<close> is commutative on canonical summaries (a
  zero counter comes with zeroed times). It is associative for all \<open>a\<close>, \<open>b\<close>, \<open>c\<close>
  with a canonical \<open>b\<close> whose three counters add up without wrapping around. A summary
  with a zero counter is a right identity for every summary.
\<close>

theorem Stats_add_assign_algebra:
  fixes a b c z :: "('c::len) word Stats"
  shows "(canonical a \<longrightarrow> canonical b \<longrightarrow> Stats_add_assign a b = Stats_add_assign b a)
       \<and> (canonical b \<longrightarrow>
            unat (num_samples a) + unat (num_samples b) + unat (num_samples c) < 2 ^ LENGTH('c) \<longrightarrow>
            Stats_add_assign (Stats_add_assign a b) c = Stats_add_assign a (Stats_add_assign b c))
       \<and> (num_samples z = 0 \<longrightarrow> Stats_add_assign a z = a)"
  using add_assign_commute [of a b] add_assign_assoc [of b a c] add_assign_identity [of z a]
  by blast

theorem Stats_add_assign_algebra_witness:
  "canonical (build (Record Fresh 10) :: 32 word Stats)
   \<and> canonical (build (Record Fresh 20) :: 32 word Stats)
   \<and> unat (num_samples (build (Record Fresh 10) :: 32 word Stats))
       + unat (num_samples (build (Record Fresh 20) :: 32 word Stats))
       + unat (num_samples (build (Record (Record Fresh 5) 7) :: 32 word Stats)) < 2 ^ 32
   \<and> num_samples (Stats_init :: 32 word Stats) = 0
   \<and> Stats_add_assign (build (Record Fresh 10)) (build (Record Fresh 20))
       = (Stats_add_assign (build (Record Fresh 20)) (build (Record Fresh 10)) :: 32 word Stats)
   \<and> Stats_add_assign (Stats_add_assign (build (Record Fresh 10)) (build (Record Fresh 20)))
         (build (Record (Record Fresh 5) 7))
       = (Stats_add_assign (build (Record Fresh 10))
           (Stats_add_assign (build (Record Fresh 20)) (build (Record (Record Fresh 5) 7)))
          :: 32 word Stats)
   \<and> Stats_add_assign (build (Record Fresh 10)) Stats_init
       = (build (Record Fresh 10) :: 32 word Stats)
   \<and> unat (0 :: 32 word)
       + unat (num_samples (build (Record Fresh 20) :: 32 word Stats))
       + unat (0 :: 32 word) < 2 ^ 32
   \<and> Stats_add_assign
         (Stats_add_assign \<lparr>min_time = 0, max_time = 0, total_time = 5, num_samples = 0\<rparr>
            (build (Record Fresh 20)))
         \<lparr>min_time = 3, max_time = 3, total_time = 4, num_samples = 0\<rparr>
       = (Stats_add_assign \<lparr>min_time = 0, max_time = 0, total_time = 5, num_samples = 0\<rparr>
           (Stats_add_assign (build (Record Fresh 20))
              \<lparr>min_time = 3, max_time = 3, total_time = 4, num_samples = 0\<rparr>)
          :: 32 word Stats)"
proof -
  let ?a = "build (Record Fresh 10) :: 32 word Stats"
  let ?b = "build (Record Fresh 20) :: 32 word Stats"
  let ?c = "build (Record (Record Fresh 5) 7) :: 32 word Stats"
  let ?a' = "\<lparr>min_time = 0, max_time = 0, total_time = 5, num_samples = 0\<rparr> :: 32 word Stats"
  let ?c' = "\<lparr>min_time = 3, max_time = 3, total_time = 4, num_samples = 0\<rparr> :: 32 word Stats"
  have na: "num_samples ?a = 1" and nb: "num_samples ?b = 1" and nc: "num_samples ?c = 2"
    by (simp_all add: record_sel Stats_init_def)
  have ca: "canonical ?a" and cb: "canonical ?b"
    unfolding canonical_def na nb by simp_all
  have n: "unat (num_samples ?a) + unat (num_samples ?b) + unat (num_samples ?c) < 2 ^ LENGTH(32)"
    unfolding na nb nc by simp
  have n': "unat (num_samples ?a') + unat (num_samples ?b) + unat (num_samples ?c') < 2 ^ LENGTH(32)"
    unfolding nb by simp
  have z: "num_samples (Stats_init :: 32 word Stats) = 0"
    by (simp add: Stats_init_def)
  have n32: "unat (num_samples ?a) + unat (num_samples ?b) + unat (num_samples ?c) < 2 ^ 32"
    using n by simp
  have n32': "unat (0 :: 32 word) + unat (num_samples ?b) + unat (0 :: 32 word) < 2 ^ 32"
    using n' by simp
  from Stats_add_assign_algebra [of ?a ?b ?c Stats_init] ca cb n z
  have "Stats_add_assign ?a ?b = Stats_add_assign ?b ?a
      \<and> Stats_add_assign (Stats_add_assign ?a ?b) ?c = Stats_add_assign ?a (Stats_add_assign ?b ?c)
      \<and> Stats_add_assign ?a Stats_init = ?a"
    by blast
  moreover from Stats_add_assign_algebra [of ?a' ?b ?c' Stats_init] cb n'
  have "Stats_add_assign (Stats_add_assign ?a' ?b) ?c' = Stats_add_assign ?a' (Stats_add_assign ?b ?c')"
    by blast
  ultimately show ?thesis using ca cb n32 n32' z by blast
qed

text \<open>
  Claim C6 as it is stated fails on the code; any value of the type is a legal operand.
  Commutativity: a summary with a zero counter and a total of 5 merged with one sample of
  7 gives a total of 12 on one side and of 7 on the other. Associativity with a middle
  operand that is not canonical: with that same summary in the middle, between the zeroed
  summary and the sample of 7, the total is 7 on one side and 12 on the other.
  Associativity when the counter wraps around: a summary of \<open>2 ^ 32 - 1\<close> samples merged
  with one sample has a counter of 0, so that merging a third summary in takes the minimum
  of the third alone, 9, where the other grouping has the minimum 3.
\<close>

theorem Stats_add_assign_counterexample:
  "Stats_add_assign
     (\<lparr>min_time = 0, max_time = 0, total_time = 5, num_samples = 0\<rparr> :: 32 word Stats)
     \<lparr>min_time = 7, max_time = 7, total_time = 7, num_samples = 1\<rparr>
   \<noteq> Stats_add_assign
     \<lparr>min_time = 7, max_time = 7, total_time = 7, num_samples = 1\<rparr>
     (\<lparr>min_time = 0, max_time = 0, total_time = 5, num_samples = 0\<rparr> :: 32 word Stats)
   \<and> Stats_add_assign
       (Stats_add_assign (Stats_init :: 32 word Stats)
          \<lparr>min_time = 0, max_time = 0, total_time = 5, num_samples = 0\<rparr>)
       \<lparr>min_time = 7, max_time = 7, total_time = 7, num_samples = 1\<rparr>
     \<noteq> Stats_add_assign (Stats_init :: 32 word Stats)
       (Stats_add_assign \<lparr>min_time = 0, max_time = 0, total_time = 5, num_samples = 0\<rparr>
          \<lparr>min_time = 7, max_time = 7, total_time = 7, num_samples = 1\<rparr>)
   \<and> Stats_add_assign
       (Stats_add_assign
          (\<lparr>min_time = 5, max_time = 5, total_time = 5, num_samples = - 1\<rparr> :: 32 word Stats)
          \<lparr>min_time = 3, max_time = 3, total_time = 3, num_samples = 1\<rparr>)
       \<lparr>min_time = 9, max_time = 9, total_time = 9, num_samples = 1\<rparr>
     \<noteq> Stats_add_assign
       (\<lparr>min_time = 5, max_time = 5, total_time = 5, num_samples = - 1\<rparr> :: 32 word Stats)
       (Stats_add_assign \<lparr>min_time = 3, max_time = 3, total_time = 3, num_samples = 1\<rparr>
          \<lparr>min_time = 9, max_time = 9, total_time = 9, num_samples = 1\<rparr>)"
  by (simp add: Stats_add_assign_def Stats_init_def)

subsection \<open>The average lies between the minimum and the maximum\<close>

lemma unat_min: "unat (min (a::'a::len word) b) = min (unat a) (unat b)"
  by (simp add: min_def word_le_nat_alt)

lemma unat_max: "unat (max (a::'a::len word) b) = max (unat a) (unat b)"
  by (simp add: max_def word_le_nat_alt)

lemma lo_combine:
  fixes na nb ma mb Sa Sb :: nat
  assumes "na * ma \<le> Sa" "nb * mb \<le> Sb"
  shows "(na + nb) * min ma mb \<le> Sa + Sb"
proof -
  have "na * min ma mb \<le> na * ma" "nb * min ma mb \<le> nb * mb"
    by (simp_all add: mult_le_mono2)
  then have "na * min ma mb + nb * min ma mb \<le> Sa + Sb"
    using assms by linarith
  then show ?thesis by (simp add: add_mult_distrib)
qed

lemma hi_combine:
  fixes na nb ma mb Sa Sb :: nat
  assumes "Sa \<le> na * ma" "Sb \<le> nb * mb"
  shows "Sa + Sb \<le> (na + nb) * max ma mb"
proof -
  have "na * ma \<le> na * max ma mb" "nb * mb \<le> nb * max ma mb"
    by (simp_all add: mult_le_mono2)
  then have "Sa + Sb \<le> na * max ma mb + nb * max ma mb"
    using assms by linarith
  then show ?thesis by (simp add: add_mult_distrib)
qed

lemma exact_init: "exact Stats_init []"
  by (simp add: exact_def Stats_init_def)

lemma exact_record:
  fixes s :: "('c::len) word Stats"
  assumes e: "exact s ds" and n: "no_overflow LENGTH('c) (ds @ [d])"
  shows "exact (Stats_record_time s d) (ds @ [d])"
proof -
  let ?S = "sum_list (map unat ds)"
  from n have sumb: "?S + unat d < 2 ^ 64" and lenb: "length ds + 1 < 2 ^ LENGTH('c)"
    by (simp_all add: no_overflow_def)
  from e have cnt: "unat (num_samples s) = length ds" and tot: "unat (total_time s) = ?S"
    and lo: "length ds * unat (min_time s) \<le> ?S" and hi: "?S \<le> length ds * unat (max_time s)"
    by (simp_all add: exact_def)
  have z: "num_samples s = 0 \<longleftrightarrow> ds = []"
    using cnt by (metis length_0_conv unat_eq_0)
  have c': "unat (num_samples s + 1) = length ds + 1"
    using lenb cnt by (simp add: unat_add_lem [THEN iffD1])
  have t': "unat (total_time s + d) = ?S + unat d"
    using sumb tot by (simp add: unat_add_lem [THEN iffD1])
  show ?thesis
  proof (cases "ds = []")
    case True
    then show ?thesis using z c' by (simp add: exact_def record_sel)
  next
    case False
    have l': "(length ds + 1) * min (unat (min_time s)) (unat d) \<le> ?S + unat d"
      using lo_combine [OF lo, of 1 "unat d" "unat d"] by simp
    have h': "?S + unat d \<le> (length ds + 1) * max (unat (max_time s)) (unat d)"
      using hi_combine [OF hi, of "unat d" 1 "unat d"] by simp
    show ?thesis using False z c' t' l' h'
      by (simp add: exact_def record_sel unat_min unat_max)
  qed
qed

lemma exact_add_assign:
  fixes a b :: "('c::len) word Stats"
  assumes ea: "exact a da" and eb: "exact b db" and n: "no_overflow LENGTH('c) (da @ db)"
  shows "exact (Stats_add_assign a b) (da @ db)"
proof -
  let ?A = "sum_list (map unat da)" and ?B = "sum_list (map unat db)"
  from n have sumb: "?A + ?B < 2 ^ 64" and lenb: "length da + length db < 2 ^ LENGTH('c)"
    by (simp_all add: no_overflow_def)
  from ea have ca: "unat (num_samples a) = length da" and ta: "unat (total_time a) = ?A"
    and la: "length da * unat (min_time a) \<le> ?A" and ha: "?A \<le> length da * unat (max_time a)"
    by (simp_all add: exact_def)
  from eb have cb: "unat (num_samples b) = length db" and tb: "unat (total_time b) = ?B"
    and lb: "length db * unat (min_time b) \<le> ?B" and hb: "?B \<le> length db * unat (max_time b)"
    by (simp_all add: exact_def)
  have za: "num_samples a = 0 \<longleftrightarrow> da = []"
    using ca by (metis length_0_conv unat_eq_0)
  have zb: "num_samples b = 0 \<longleftrightarrow> db = []"
    using cb by (metis length_0_conv unat_eq_0)
  have c': "unat (num_samples a + num_samples b) = length da + length db"
    using lenb ca cb by (simp add: unat_add_lem [THEN iffD1])
  have t': "unat (total_time a + total_time b) = ?A + ?B"
    using sumb ta tb by (simp add: unat_add_lem [THEN iffD1])
  show ?thesis
  proof (cases "db = []")
    case True
    then show ?thesis using ea zb by (simp add: Stats_add_assign_def)
  next
    case nb: False
    show ?thesis
    proof (cases "da = []")
      case True
      then show ?thesis using nb za zb c' t' lb hb
        by (simp add: exact_def add_assign_sel)
    next
      case False
      then show ?thesis using nb za zb c' t' lo_combine [OF la lb] hi_combine [OF ha hb]
        by (simp add: exact_def add_assign_sel unat_min unat_max)
    qed
  qed
qed

lemma no_overflow_append:
  "no_overflow w (xs @ ys) \<Longrightarrow> no_overflow w xs \<and> no_overflow w ys"
  by (simp add: no_overflow_def)

lemma build_exact:
  "no_overflow LENGTH('c) (recorded h) \<Longrightarrow> exact (build h :: ('c::len) word Stats) (recorded h)"
proof (induction h)
  case Fresh
  show ?case by (simp add: exact_init)
next
  case (Reset h)
  show ?case by (simp add: Stats_reset_eq exact_init)
next
  case (Record h d)
  from Record.prems have "no_overflow LENGTH('c) (recorded h)"
    using no_overflow_append [of "LENGTH('c)" "recorded h" "[d]"] by simp
  then have "exact (build h :: 'c word Stats) (recorded h)" by (rule Record.IH)
  then show ?case using Record.prems by (simp add: exact_record)
next
  case (Merge h1 h2)
  from Merge.prems have "no_overflow LENGTH('c) (recorded h1)" "no_overflow LENGTH('c) (recorded h2)"
    using no_overflow_append [of "LENGTH('c)" "recorded h1" "recorded h2"] by simp_all
  then have "exact (build h1 :: 'c word Stats) (recorded h1)"
    and "exact (build h2 :: 'c word Stats) (recorded h2)"
    by (simp_all add: Merge.IH)
  then show ?case using Merge.prems by (simp add: exact_add_assign)
qed

lemma unat_ucast_counter:
  fixes n :: "('c::len) word"
  assumes w: "LENGTH('c) \<le> 64"
  shows "unat (ucast n :: u64) = unat n"
proof -
  have "unat n < 2 ^ LENGTH('c)" by (rule unsigned_less)
  also have "(2::nat) ^ LENGTH('c) \<le> 2 ^ 64"
    using w by (intro power_increasing) simp_all
  finally have "take_bit 64 (unat n) = unat n" by (intro take_bit_nat_eq_self)
  then show ?thesis by (simp only: unsigned_ucast_eq) simp
qed

lemma exact_avg:
  fixes s :: "('c::len) word Stats"
  assumes e: "exact s ds" and w: "LENGTH('c) \<le> 64" and pos: "num_samples s > 0"
  shows "get_avg_time s = total_time s div ucast (num_samples s) \<and>
         min_time s \<le> get_avg_time s \<and> get_avg_time s \<le> max_time s"
proof -
  let ?n = "unat (num_samples s)" and ?S = "unat (total_time s)"
  have uc: "unat (ucast (num_samples s) :: u64) = ?n"
    by (rule unat_ucast_counter [OF w])
  have npos: "0 < ?n" using pos by (simp add: word_less_nat_alt)
  have avg: "get_avg_time s = total_time s div ucast (num_samples s)"
    using pos by (simp add: get_avg_time_def)
  have ua: "unat (get_avg_time s) = ?S div ?n"
    by (simp add: avg unat_div uc)
  from e have lo: "?n * unat (min_time s) \<le> ?S" and hi: "?S \<le> ?n * unat (max_time s)"
    by (simp_all add: exact_def)
  have "unat (min_time s) \<le> ?S div ?n"
    using lo npos by (simp add: less_eq_div_iff_mult_less_eq mult.commute)
  moreover have "?S div ?n \<le> unat (max_time s)"
    using hi npos by (metis div_le_mono nonzero_mult_div_cancel_left less_numeral_extra(3))
  ultimately show ?thesis
    using avg ua by (simp add: word_le_nat_alt)
qed

text \<open>
  Claim C7, as the code has it. Take a summary built by the constructor, \<open>reset\<close>,
  \<open>record_time\<close> and \<open>operator+=\<close>, with a counter of at most 64 bits, such that the
  durations that went into it add up below \<open>2 ^ 64\<close> and are fewer than the counter can
  count. If its counter is not zero, \<open>get_avg_time\<close> is \<open>total_time / num_samples\<close> in
  unsigned (truncating) division and lies between \<open>min_time\<close> and \<open>max_time\<close>; if its
  counter is zero, \<open>get_avg_time\<close> is 0.
\<close>

theorem get_avg_time_bounds:
  fixes s :: "('c::len) word Stats"
  assumes "s = build h" and "no_overflow LENGTH('c) (recorded h)" and "LENGTH('c) \<le> 64"
  shows "(0 < num_samples s \<longrightarrow>
            get_avg_time s = total_time s div ucast (num_samples s)
          \<and> min_time s \<le> get_avg_time s \<and> get_avg_time s \<le> max_time s)
       \<and> (num_samples s = 0 \<longrightarrow> get_avg_time s = 0)"
proof -
  have e: "exact s (recorded h)"
    unfolding assms(1) by (rule build_exact [OF assms(2)])
  have "get_avg_time s = total_time s div ucast (num_samples s)
          \<and> min_time s \<le> get_avg_time s \<and> get_avg_time s \<le> max_time s"
    if "0 < num_samples s"
    by (rule exact_avg [OF e assms(3) that])
  moreover have "get_avg_time s = 0" if "num_samples s = 0"
    using that by (simp add: get_avg_time_def)
  ultimately show ?thesis by blast
qed

theorem get_avg_time_bounds_witness:
  "no_overflow LENGTH(32) (recorded (Merge (Record Fresh 10) (Record (Record Fresh 20) 33)))
   \<and> LENGTH(32) \<le> (64::nat)
   \<and> 0 < num_samples (build (Merge (Record Fresh 10) (Record (Record Fresh 20) 33)) :: 32 word Stats)
   \<and> get_avg_time (build (Merge (Record Fresh 10) (Record (Record Fresh 20) 33)) :: 32 word Stats) = 21
   \<and> min_time (build (Merge (Record Fresh 10) (Record (Record Fresh 20) 33)) :: 32 word Stats)
       \<le> get_avg_time (build (Merge (Record Fresh 10) (Record (Record Fresh 20) 33)) :: 32 word Stats)
   \<and> get_avg_time (build (Merge (Record Fresh 10) (Record (Record Fresh 20) 33)) :: 32 word Stats)
       \<le> max_time (build (Merge (Record Fresh 10) (Record (Record Fresh 20) 33)) :: 32 word Stats)
   \<and> num_samples (build (Reset (Record Fresh 10)) :: 32 word Stats) = 0
   \<and> get_avg_time (build (Reset (Record Fresh 10)) :: 32 word Stats) = 0"
proof -
  let ?h = "Merge (Record Fresh 10) (Record (Record Fresh 20) 33)"
  let ?s = "build ?h :: 32 word Stats"
  have n: "no_overflow LENGTH(32) (recorded ?h)"
    by (simp add: no_overflow_def)
  have w: "LENGTH(32) \<le> (64::nat)" by simp
  have v: "?s = \<lparr>min_time = 10, max_time = 33, total_time = 63, num_samples = 3\<rparr>"
    by (simp add: Stats_record_time_def Stats_add_assign_def Stats_init_def)
  have pos: "0 < num_samples ?s" and avg: "get_avg_time ?s = 21"
    unfolding v by (simp_all add: get_avg_time_def)
  have n0: "no_overflow LENGTH(32) (recorded (Reset (Record Fresh 10)))"
    by (simp add: no_overflow_def)
  have z: "num_samples (build (Reset (Record Fresh 10)) :: 32 word Stats) = 0"
    by (simp add: Stats_reset_def)
  from get_avg_time_bounds [OF refl n w] pos
  have b: "min_time ?s \<le> get_avg_time ?s \<and> get_avg_time ?s \<le> max_time ?s" by blast
  from get_avg_time_bounds [OF refl n0 w] z
  have a0: "get_avg_time (build (Reset (Record Fresh 10)) :: 32 word Stats) = 0" by blast
  from n w pos avg b z a0 show ?thesis by blast
qed

text \<open>
  Claim C7 as it is stated fails on the code: \<open>total_time\<close> wraps around. After two
  samples of \<open>2 ^ 64 - 5\<close> and 10 microseconds (a duration as \<open>AutoBlockProfiler\<close>
  computes it when the clock steps back by 5, and a short one) the total is 5, the
  average is 2 and the minimum is 10.
\<close>

theorem get_avg_time_counterexample:
  "0 < num_samples (build (Record (Record Fresh (- 5)) 10) :: 32 word Stats)
   \<and> get_avg_time (build (Record (Record Fresh (- 5)) 10) :: 32 word Stats) = 2
   \<and> min_time (build (Record (Record Fresh (- 5)) 10) :: 32 word Stats) = 10
   \<and> \<not> min_time (build (Record (Record Fresh (- 5)) 10) :: 32 word Stats)
         \<le> get_avg_time (build (Record (Record Fresh (- 5)) 10) :: 32 word Stats)"
proof -
  have v: "(build (Record (Record Fresh (- 5)) 10) :: 32 word Stats)
      = \<lparr>min_time = 10, max_time = - 5, total_time = 5, num_samples = 2\<rparr>"
    by (simp add: Stats_record_time_def Stats_init_def)
  show ?thesis unfolding v by (simp add: get_avg_time_def)
qed

section \<open>Properties of the collector\<close>

subsection \<open>The loops in closed form\<close>

lemma accumulate_loop_fold:
  "s \<le> e \<Longrightarrow> e \<le> length xs \<Longrightarrow>
   accumulate_loop xs s e acc = Some (foldl Stats_add_assign acc (map (\<lambda>i. xs ! i) [s ..< e]))"
proof (induction xs s e acc rule: accumulate_loop.induct)
  case (1 xs s e acc)
  show ?case
  proof (cases "s = e")
    case True
    then show ?thesis by (subst accumulate_loop.simps) simp
  next
    case False
    with "1.prems" have lt: "s < e" "s < length xs" by simp_all
    then have "accumulate_loop xs s e acc =
        accumulate_loop xs (Suc s) e (Stats_add_assign acc (xs ! s))"
      by (simp add: accumulate_loop.simps [of xs s e acc])
    also have "\<dots> = Some (foldl Stats_add_assign (Stats_add_assign acc (xs ! s))
        (map (\<lambda>i. xs ! i) [Suc s ..< e]))"
      using "1.IH" [OF False lt(2)] lt "1.prems" by simp
    finally show ?thesis using lt by (simp add: upt_conv_Cons)
  qed
qed

lemma reset_slots_closed:
  "i \<le> e \<Longrightarrow> e \<le> length xs \<Longrightarrow>
   reset_slots xs i e = Some (take i xs @ replicate (e - i) Stats_init @ drop e xs)"
proof (induction xs i e rule: reset_slots.induct)
  case (1 xs i e)
  show ?case
  proof (cases "i < e")
    case False
    with "1.prems" show ?thesis by (subst reset_slots.simps) simp
  next
    case True
    with "1.prems" have il: "i < length xs" by simp
    have step: "reset_slots xs i e = reset_slots (xs[i := Stats_reset (xs ! i)]) (Suc i) e"
      using True il by (simp add: reset_slots.simps [of xs i e])
    have ih: "reset_slots (xs[i := Stats_reset (xs ! i)]) (Suc i) e =
        Some (take (Suc i) (xs[i := Stats_reset (xs ! i)])
         @ replicate (e - Suc i) Stats_init @ drop e (xs[i := Stats_reset (xs ! i)]))"
      using "1.IH" [OF True il] True "1.prems" by simp
    have t: "take (Suc i) (xs[i := Stats_reset (xs ! i)]) = take i xs @ [Stats_init]"
      using il by (simp add: take_Suc_conv_app_nth Stats_reset_eq)
    have d: "drop e (xs[i := Stats_reset (xs ! i)]) = drop e xs"
      using True by simp
    have r: "replicate (e - i) (Stats_init :: 'a word Stats)
        = Stats_init # replicate (e - Suc i) Stats_init"
      using True by (simp add: Suc_diff_Suc flip: replicate_Suc)
    show ?thesis by (simp add: step ih t d r)
  qed
qed

lemma unat_of_nat_u64: "n < 2 ^ 64 \<Longrightarrow> unat (of_nat n :: u64) = n"
  by (simp add: unat_of_nat)

lemma unat_NUM_SLOTS: "config_ok cfg \<Longrightarrow> unat (of_nat (NUM_SLOTS cfg) :: u64) = NUM_SLOTS cfg"
  by (rule unat_of_nat_u64) (simp add: config_ok_def)

lemma unat_slot_us:
  "config_ok cfg \<Longrightarrow>
   unat (of_nat (SLOT_DURATION_MS cfg * 1000) :: u64) = SLOT_DURATION_MS cfg * 1000"
  by (rule unat_of_nat_u64) (simp add: config_ok_def)

lemma unat_time_bucket:
  "config_ok cfg \<Longrightarrow> unat (time_bucket cfg t) = unat t div (SLOT_DURATION_MS cfg * 1000)"
  unfolding time_bucket_def unat_div by (simp only: unat_slot_us)

subsection \<open>\<open>accumulate_stats\<close>\<close>

lemma accumulate_stats_merged:
  fixes c :: "('c::len) word ProfilingCollector"
  assumes ok: "config_ok cfg" and len: "length (slots c) = NUM_SLOTS cfg"
  shows "accumulate_stats cfg c w = Some (merged_window cfg (slots c) w)"
proof -
  let ?e = "min (1 + unat w div SLOT_DURATION_MS cfg) (NUM_SLOTS cfg)"
  have pos: "1 \<le> NUM_SLOTS cfg" using ok by (simp add: config_ok_def)
  have e1: "1 \<le> ?e" using pos by simp
  have e2: "?e \<le> length (slots c)" using len by simp
  show ?thesis
    unfolding accumulate_stats_def merged_window_def Let_def
    using accumulate_loop_fold [OF e1 e2] by simp
qed

lemma merged_window_slot0:
  "merged_window cfg (xs[0 := x]) w = merged_window cfg xs w"
proof -
  let ?e = "min (1 + unat w div SLOT_DURATION_MS cfg) (NUM_SLOTS cfg)"
  have "map (\<lambda>i. xs[0 := x] ! i) [1 ..< ?e] = map (\<lambda>i. xs ! i) [1 ..< ?e]"
    by (rule map_cong) auto
  then show ?thesis unfolding merged_window_def by (rule arg_cong)
qed

lemma merged_window_zero: "0 < NUM_SLOTS cfg \<Longrightarrow> merged_window cfg xs 0 = Stats_init"
  by (simp add: merged_window_def min_absorb1)

text \<open>
  Claim C1. In every state of a collector (its array has \<open>NUM_SLOTS\<close> slots) and for
  every window, \<open>accumulate_stats\<close> returns the merge, from the zeroed summary on, of the
  slots with indices in \<open>[1, min (1 + window_duration_ms / SLOT_DURATION_MS) NUM_SLOTS)\<close>.
  Slot 0 is not part of it: whatever slot 0 holds, the result is the same. For a window
  of 0 the result has a counter of 0.
\<close>

theorem accumulate_stats_window:
  fixes c :: "('c::len) word ProfilingCollector"
  assumes "config_ok cfg" and "length (slots c) = NUM_SLOTS cfg"
  shows "accumulate_stats cfg c w = Some (merged_window cfg (slots c) w)
       \<and> accumulate_stats cfg (c\<lparr>slots := (slots c)[0 := x]\<rparr>) w = accumulate_stats cfg c w
       \<and> map_option num_samples (accumulate_stats cfg c 0) = Some 0"
proof -
  have pos: "0 < NUM_SLOTS cfg" using assms(1) by (simp add: config_ok_def)
  have a: "accumulate_stats cfg c w = Some (merged_window cfg (slots c) w)" for w
    by (rule accumulate_stats_merged [OF assms])
  have b: "accumulate_stats cfg (c\<lparr>slots := (slots c)[0 := x]\<rparr>) w
      = Some (merged_window cfg ((slots c)[0 := x]) w)"
    using accumulate_stats_merged [OF assms(1), of "c\<lparr>slots := (slots c)[0 := x]\<rparr>" w] assms(2)
    by simp
  show ?thesis
    by (simp add: a b merged_window_slot0 merged_window_zero [OF pos] Stats_init_def)
qed

lemma scenario_config_ok: "config_ok scenario_config"
  by (simp add: config_ok_def scenario_config_def)

theorem accumulate_stats_window_witness:
  "config_ok scenario_config
   \<and> length (slots two_slots) = NUM_SLOTS scenario_config
   \<and> accumulate_stats scenario_config two_slots 5000
       = Some \<lparr>min_time = 10, max_time = 20, total_time = 30, num_samples = 2\<rparr>
   \<and> accumulate_stats scenario_config two_slots 1999
       = Some \<lparr>min_time = 20, max_time = 20, total_time = 20, num_samples = 1\<rparr>
   \<and> map_option num_samples (accumulate_stats scenario_config two_slots 0) = Some 0"
proof -
  have len: "length (slots two_slots) = NUM_SLOTS scenario_config"
    by (simp add: two_slots_def scenario_config_def)
  have m1: "merged_window scenario_config (slots two_slots) 5000
      = \<lparr>min_time = 10, max_time = 20, total_time = 30, num_samples = 2\<rparr>"
    by (simp add: merged_window_def scenario_config_def two_slots_def upt_conv_Cons
        Stats_add_assign_def Stats_init_def)
  have m2: "merged_window scenario_config (slots two_slots) 1999
      = \<lparr>min_time = 20, max_time = 20, total_time = 20, num_samples = 1\<rparr>"
    by (simp add: merged_window_def scenario_config_def two_slots_def upt_conv_Cons
        Stats_add_assign_def Stats_init_def)
  from accumulate_stats_window [OF scenario_config_ok len, of 5000]
    accumulate_stats_window [OF scenario_config_ok len, of 1999]
  show ?thesis using scenario_config_ok len by (simp add: m1 m2)
qed

subsection \<open>\<open>record_time\<close>: moving the ring\<close>

lemma record_time_shift_moved:
  fixes c :: "('c::len) word ProfilingCollector"
  assumes ok: "config_ok cfg" and len: "length (slots c) = NUM_SLOTS cfg"
    and ne: "time_bucket cfg now_us \<noteq> head_time_bucket c"
    and pass: "NDEBUG cfg \<or> head_time_bucket c < time_bucket cfg now_us"
  shows "record_time_shift cfg now_us c =
     Inr (c\<lparr>slots :=
              replicate (min (unat (time_bucket cfg now_us - head_time_bucket c)) (NUM_SLOTS cfg))
                Stats_init
              @ take (NUM_SLOTS cfg - unat (time_bucket cfg now_us - head_time_bucket c)) (slots c),
            head_time_bucket := time_bucket cfg now_us\<rparr>)"
proof -
  let ?nb = "time_bucket cfg now_us" and ?N = "NUM_SLOTS cfg"
  let ?sh = "?nb - head_time_bucket c"
  have uN: "unat (of_nat ?N :: u64) = ?N" by (rule unat_NUM_SLOTS [OF ok])
  have keep_iff: "?sh < of_nat ?N \<longleftrightarrow> unat ?sh < ?N"
    by (simp add: word_less_nat_alt uN)
  show ?thesis
  proof (cases "unat ?sh < ?N")
    case True
    then have le: "?sh \<le> of_nat ?N" by (simp add: word_le_nat_alt uN)
    have uk: "unat (of_nat ?N - ?sh) = ?N - unat ?sh"
      using le by (simp add: unat_sub uN)
    have inv: "of_nat ?N - (of_nat ?N - ?sh) = ?sh" by simp
    have mv: "memmove_slots (slots c) (unat ?sh) 0 (?N - unat ?sh)
        = Some (take (unat ?sh) (slots c) @ take (?N - unat ?sh) (slots c))"
      using True len by (simp add: memmove_slots_def)
    have rs: "reset_slots (take (unat ?sh) (slots c) @ take (?N - unat ?sh) (slots c)) 0 (unat ?sh)
        = Some (replicate (unat ?sh) Stats_init @ take (?N - unat ?sh) (slots c))"
      using True len by (subst reset_slots_closed) (simp_all add: min_absorb2)
    show ?thesis
      using True pass ne keep_iff
      by (auto simp add: record_time_shift_def Let_def uk inv mv rs min_absorb1)
  next
    case False
    have rs: "reset_slots (slots c) 0 ?N = Some (replicate ?N Stats_init)"
      using len by (subst reset_slots_closed) simp_all
    show ?thesis
      using False pass ne keep_iff
      by (auto simp add: record_time_shift_def Let_def uN rs min_absorb2)
  qed
qed

lemma record_time_shift_closed:
  fixes c :: "('c::len) word ProfilingCollector"
  assumes ok: "config_ok cfg" and len: "length (slots c) = NUM_SLOTS cfg"
    and lt: "head_time_bucket c < time_bucket cfg now_us"
  shows "record_time_shift cfg now_us c =
     Inr (c\<lparr>slots :=
              replicate (min (unat (time_bucket cfg now_us - head_time_bucket c)) (NUM_SLOTS cfg))
                Stats_init
              @ take (NUM_SLOTS cfg - unat (time_bucket cfg now_us - head_time_bucket c)) (slots c),
            head_time_bucket := time_bucket cfg now_us\<rparr>)"
proof -
  have "time_bucket cfg now_us \<noteq> head_time_bucket c" using lt by auto
  then show ?thesis
    using lt by (intro record_time_shift_moved [OF ok len]) simp_all
qed

lemma record_time_shift_same:
  "time_bucket cfg now_us = head_time_bucket c \<Longrightarrow> record_time_shift cfg now_us c = Inr c"
  by (simp add: record_time_shift_def)

text \<open>
  Claim C2. Let \<open>h\<close> be \<open>head_time_bucket\<close> and let the clock be in slot
  \<open>now_bucket > h\<close>, with \<open>shift = now_bucket - h\<close>. Then the first part of
  \<open>record_time\<close> returns normally, \<open>head_time_bucket\<close> becomes \<open>now_bucket\<close>, and:
  if \<open>shift \<ge> NUM_SLOTS\<close>, every slot is the zeroed summary; otherwise slot
  \<open>i + shift\<close> holds what slot \<open>i\<close> held, for every \<open>i\<close> with
  \<open>i + shift \<le> NUM_SLOTS - 1\<close> (the array still has \<open>NUM_SLOTS\<close> slots, so what was
  pushed past the last one is gone), and the slots \<open>0 .. shift - 1\<close> are zeroed. If
  \<open>now_bucket = h\<close>, the collector is unchanged.
\<close>

theorem record_time_shift_ring:
  fixes c :: "('c::len) word ProfilingCollector"
  assumes ok: "config_ok cfg" and len: "length (slots c) = NUM_SLOTS cfg"
  shows "(head_time_bucket c < time_bucket cfg now_us \<longrightarrow>
           (\<exists>c'. record_time_shift cfg now_us c = Inr c'
              \<and> head_time_bucket c' = time_bucket cfg now_us
              \<and> length (slots c') = NUM_SLOTS cfg
              \<and> (NUM_SLOTS cfg \<le> unat (time_bucket cfg now_us - head_time_bucket c) \<longrightarrow>
                   (\<forall>i < NUM_SLOTS cfg. slots c' ! i = Stats_init))
              \<and> (unat (time_bucket cfg now_us - head_time_bucket c) < NUM_SLOTS cfg \<longrightarrow>
                   (\<forall>i. i + unat (time_bucket cfg now_us - head_time_bucket c) \<le> NUM_SLOTS cfg - 1 \<longrightarrow>
                      slots c' ! (i + unat (time_bucket cfg now_us - head_time_bucket c)) = slots c ! i)
                 \<and> (\<forall>j < unat (time_bucket cfg now_us - head_time_bucket c).
                      slots c' ! j = Stats_init))))
       \<and> (time_bucket cfg now_us = head_time_bucket c \<longrightarrow> record_time_shift cfg now_us c = Inr c)"
proof (intro conjI impI)
  assume lt: "head_time_bucket c < time_bucket cfg now_us"
  let ?sh = "unat (time_bucket cfg now_us - head_time_bucket c)" and ?N = "NUM_SLOTS cfg"
  let ?ys = "replicate (min ?sh ?N) Stats_init @ take (?N - ?sh) (slots c)"
  let ?c' = "c\<lparr>slots := ?ys, head_time_bucket := time_bucket cfg now_us\<rparr>"
  have r: "record_time_shift cfg now_us c = Inr ?c'"
    by (rule record_time_shift_closed [OF ok len lt])
  have l: "length ?ys = ?N" using len by simp
  have all: "\<forall>i < ?N. ?ys ! i = Stats_init" if "?N \<le> ?sh"
    using that by (simp add: min_absorb2)
  have front: "\<forall>j < ?sh. ?ys ! j = Stats_init" if "?sh < ?N"
    using that by (simp add: min_absorb1 nth_append)
  have moved: "\<forall>i. i + ?sh \<le> ?N - 1 \<longrightarrow> ?ys ! (i + ?sh) = slots c ! i" if "?sh < ?N"
    using that len by (auto simp add: min_absorb1 nth_append)
  show "\<exists>c'. record_time_shift cfg now_us c = Inr c'
              \<and> head_time_bucket c' = time_bucket cfg now_us
              \<and> length (slots c') = NUM_SLOTS cfg
              \<and> (NUM_SLOTS cfg \<le> ?sh \<longrightarrow> (\<forall>i < NUM_SLOTS cfg. slots c' ! i = Stats_init))
              \<and> (?sh < NUM_SLOTS cfg \<longrightarrow>
                   (\<forall>i. i + ?sh \<le> NUM_SLOTS cfg - 1 \<longrightarrow> slots c' ! (i + ?sh) = slots c ! i)
                 \<and> (\<forall>j < ?sh. slots c' ! j = Stats_init))"
    apply (rule exI [of _ ?c'])
    using r l all front moved by simp
next
  assume "time_bucket cfg now_us = head_time_bucket c"
  then show "record_time_shift cfg now_us c = Inr c" by (rule record_time_shift_same)
qed

lemma one_sample_len: "length (slots one_sample) = NUM_SLOTS scenario_config"
  by (simp add: one_sample_def scenario_config_def)

lemma scenario_NUM_SLOTS: "NUM_SLOTS scenario_config = 5"
  by (simp add: scenario_config_def)

lemma scenario_bucket:
  "time_bucket scenario_config 999999 = 0"
  "time_bucket scenario_config 1000000 = 1"
  "time_bucket scenario_config 2000000 = 2"
  "time_bucket scenario_config 7000000 = 7"
  "time_bucket scenario_config 9000000 = 9"
  "time_bucket scenario_config 10000000 = 10"
  "time_bucket scenario_config 0 = 0"
  "time_bucket scenario_config 1000 = 0"
  by (simp_all add: time_bucket_def scenario_config_def)

theorem record_time_shift_ring_witness:
  "config_ok scenario_config
   \<and> length (slots one_sample) = NUM_SLOTS scenario_config
   \<and> head_time_bucket one_sample < time_bucket scenario_config 2000000
   \<and> unat (time_bucket scenario_config 2000000 - head_time_bucket one_sample) = 2
   \<and> 2 < NUM_SLOTS scenario_config
   \<and> (\<exists>c'. record_time_shift scenario_config 2000000 one_sample = Inr c'
         \<and> head_time_bucket c' = 2
         \<and> slots c' ! 2 = slots one_sample ! 0
         \<and> slots c' ! 4 = slots one_sample ! 2
         \<and> slots c' ! 0 = Stats_init \<and> slots c' ! 1 = Stats_init)
   \<and> head_time_bucket one_sample < time_bucket scenario_config 7000000
   \<and> NUM_SLOTS scenario_config \<le> unat (time_bucket scenario_config 7000000 - head_time_bucket one_sample)
   \<and> (\<exists>c'. record_time_shift scenario_config 7000000 one_sample = Inr c'
         \<and> head_time_bucket c' = 7
         \<and> slots c' ! 0 = Stats_init \<and> slots c' ! 4 = Stats_init)
   \<and> time_bucket scenario_config 999999 = head_time_bucket one_sample
   \<and> record_time_shift scenario_config 999999 one_sample = Inr one_sample"
proof -
  note ok = scenario_config_ok and len = one_sample_len
  have h: "head_time_bucket one_sample = 0" by (simp add: one_sample_def)
  have N: "NUM_SLOTS scenario_config = 5" by (simp add: scenario_config_def)
  have lt2: "head_time_bucket one_sample < time_bucket scenario_config 2000000"
    and lt7: "head_time_bucket one_sample < time_bucket scenario_config 7000000"
    and eq0: "time_bucket scenario_config 999999 = head_time_bucket one_sample"
    by (simp_all add: h scenario_bucket)
  have s2: "unat (time_bucket scenario_config 2000000 - head_time_bucket one_sample) = 2"
    and s7: "unat (time_bucket scenario_config 7000000 - head_time_bucket one_sample) = 7"
    by (simp_all add: h scenario_bucket)
  from record_time_shift_ring [OF ok len, of 2000000] lt2
  obtain c2 where c2: "record_time_shift scenario_config 2000000 one_sample = Inr c2"
    "head_time_bucket c2 = time_bucket scenario_config 2000000"
    "\<forall>i. i + 2 \<le> NUM_SLOTS scenario_config - 1 \<longrightarrow> slots c2 ! (i + 2) = slots one_sample ! i"
    "\<forall>j < 2. slots c2 ! j = Stats_init"
    unfolding s2 N by auto
  have m: "slots c2 ! 2 = slots one_sample ! 0" "slots c2 ! 4 = slots one_sample ! 2"
    using c2(3) [rule_format, of 0] c2(3) [rule_format, of 2] unfolding N
    by (simp_all add: eval_nat_numeral)
  from c2(4) have f: "slots c2 ! 0 = Stats_init" "slots c2 ! 1 = Stats_init"
    by simp_all
  have e2: "\<exists>c'. record_time_shift scenario_config 2000000 one_sample = Inr c'
         \<and> head_time_bucket c' = 2
         \<and> slots c' ! 2 = slots one_sample ! 0
         \<and> slots c' ! 4 = slots one_sample ! 2
         \<and> slots c' ! 0 = Stats_init \<and> slots c' ! 1 = Stats_init"
    using c2(1,2) m f by (simp add: scenario_bucket)
  from record_time_shift_ring [OF ok len, of 7000000] lt7
  obtain c7 where c7: "record_time_shift scenario_config 7000000 one_sample = Inr c7"
    "head_time_bucket c7 = time_bucket scenario_config 7000000"
    "\<forall>i < 5. slots c7 ! i = Stats_init"
    unfolding s7 N by auto
  have e7: "\<exists>c'. record_time_shift scenario_config 7000000 one_sample = Inr c'
         \<and> head_time_bucket c' = 7
         \<and> slots c' ! 0 = Stats_init \<and> slots c' ! 4 = Stats_init"
    using c7 by (simp add: scenario_bucket)
  from record_time_shift_ring [OF ok len, of 999999] eq0
  have e0: "record_time_shift scenario_config 999999 one_sample = Inr one_sample"
    by blast
  have "NUM_SLOTS scenario_config \<le> unat (time_bucket scenario_config 7000000 - head_time_bucket one_sample)"
    and "2 < NUM_SLOTS scenario_config"
    unfolding s7 N by simp_all
  with ok len lt2 s2 e2 lt7 e7 eq0 e0 show ?thesis by blast
qed

subsection \<open>\<open>record_time\<close>: storing the sample\<close>

lemma slot_idx_bound:
  fixes b h :: u64
  assumes "b \<le> h" and "h < b + of_nat n"
  shows "unat (h - b) < n"
proof -
  have "unat (b + of_nat n) \<le> unat b + unat (of_nat n :: u64)"
    by (simp add: unat_word_ariths)
  also have "unat (of_nat n :: u64) \<le> n"
    by (simp add: unat_of_nat)
  finally have "unat h < unat b + n"
    using assms(2) by (simp add: word_less_nat_alt)
  moreover have "unat (h - b) = unat h - unat b"
    using assms(1) by (simp add: unat_sub)
  ultimately show ?thesis
    using assms(1) by (simp add: word_le_nat_alt)
qed

lemma record_time_shift_cases:
  fixes c :: "('c::len) word ProfilingCollector"
  assumes ok: "config_ok cfg" and len: "length (slots c) = NUM_SLOTS cfg"
  shows "(time_bucket cfg now_us < head_time_bucket c \<and> \<not> NDEBUG cfg
            \<and> record_time_shift cfg now_us c = Inl AssertionFailed)
       \<or> ((NDEBUG cfg \<or> head_time_bucket c \<le> time_bucket cfg now_us) \<and>
           (\<exists>c1. record_time_shift cfg now_us c = Inr c1
              \<and> length (slots c1) = NUM_SLOTS cfg
              \<and> head_time_bucket c1 = time_bucket cfg now_us))"
proof -
  consider "time_bucket cfg now_us < head_time_bucket c"
    | "time_bucket cfg now_us = head_time_bucket c"
    | "head_time_bucket c < time_bucket cfg now_us"
    by (meson linorder_neqE)
  then show ?thesis
  proof cases
    case 1
    then have ne: "time_bucket cfg now_us \<noteq> head_time_bucket c"
      and nlt: "\<not> head_time_bucket c < time_bucket cfg now_us" by auto
    show ?thesis
    proof (cases "NDEBUG cfg")
      case False
      then have "record_time_shift cfg now_us c = Inl AssertionFailed"
        using ne nlt by (simp add: record_time_shift_def Let_def)
      with 1 False show ?thesis by simp
    next
      case True
      then show ?thesis
        using len by (auto simp add: record_time_shift_moved [OF ok len ne] min_def)
    qed
  next
    case 2
    then show ?thesis using len by (simp add: record_time_shift_same)
  next
    case 3
    then show ?thesis
      using len by (auto simp add: record_time_shift_closed [OF ok len 3] min_def)
  qed
qed

lemma record_time_store_cases:
  fixes c :: "('c::len) word ProfilingCollector"
  assumes len: "length (slots c) = NUM_SLOTS cfg"
  shows "record_time_store cfg c begin_time duration =
     (if time_bucket cfg begin_time \<le> head_time_bucket c
         \<and> head_time_bucket c < time_bucket cfg begin_time + of_nat (NUM_SLOTS cfg)
      then Inr (c\<lparr>slots := (slots c)[unat (head_time_bucket c - time_bucket cfg begin_time) :=
              Stats_record_time (slots c ! unat (head_time_bucket c - time_bucket cfg begin_time))
                duration]\<rparr>)
      else Inr c)"
  using slot_idx_bound [of "time_bucket cfg begin_time" "head_time_bucket c" "NUM_SLOTS cfg"] len
  by (simp add: record_time_store_def Let_def)

text \<open>
  Claim C10. In every state of a collector and for every clock value, begin and duration,
  \<open>record_time\<close> does not get to an access outside the array: the result is never
  \<open>OutOfBounds\<close>. After the ring has moved, whenever the guard of line 128 holds, the
  index \<open>head_time_bucket - begin_time_bucket\<close> is below \<open>NUM_SLOTS\<close>, the length of
  the array.
\<close>

theorem record_time_in_bounds:
  fixes c :: "('c::len) word ProfilingCollector"
  assumes ok: "config_ok cfg" and len: "length (slots c) = NUM_SLOTS cfg"
  shows "record_time cfg now_us c begin_time duration \<noteq> Inl OutOfBounds
       \<and> (\<forall>c1. record_time_shift cfg now_us c = Inr c1 \<longrightarrow>
             time_bucket cfg begin_time \<le> head_time_bucket c1 \<longrightarrow>
             head_time_bucket c1 < time_bucket cfg begin_time + of_nat (NUM_SLOTS cfg) \<longrightarrow>
             unat (head_time_bucket c1 - time_bucket cfg begin_time) < NUM_SLOTS cfg
           \<and> unat (head_time_bucket c1 - time_bucket cfg begin_time) < length (slots c1))"
proof -
  from record_time_shift_cases [OF ok len, of now_us]
  consider "record_time_shift cfg now_us c = Inl AssertionFailed"
    | c1 where "record_time_shift cfg now_us c = Inr c1" "length (slots c1) = NUM_SLOTS cfg"
    by blast
  then show ?thesis
  proof cases
    case 1
    then show ?thesis by (simp add: record_time_def)
  next
    case (2 c1)
    have "record_time cfg now_us c begin_time duration \<noteq> Inl OutOfBounds"
      by (simp add: record_time_def 2(1) record_time_store_cases [OF 2(2)])
    then show ?thesis using 2 by (auto intro: slot_idx_bound)
  qed
qed

theorem record_time_in_bounds_witness:
  "config_ok scenario_config
   \<and> length (slots one_sample) = NUM_SLOTS scenario_config
   \<and> record_time scenario_config 2000000 one_sample 1000000 20 \<noteq> Inl OutOfBounds
   \<and> (\<exists>c1. record_time_shift scenario_config 2000000 one_sample = Inr c1
         \<and> time_bucket scenario_config 1000000 \<le> head_time_bucket c1
         \<and> head_time_bucket c1 < time_bucket scenario_config 1000000 + of_nat (NUM_SLOTS scenario_config)
         \<and> unat (head_time_bucket c1 - time_bucket scenario_config 1000000) < NUM_SLOTS scenario_config
         \<and> unat (head_time_bucket c1 - time_bucket scenario_config 1000000) < length (slots c1))"
proof -
  note ok = scenario_config_ok and len = one_sample_len
  have h: "head_time_bucket one_sample < time_bucket scenario_config 2000000"
    by (simp add: one_sample_def scenario_bucket)
  from record_time_shift_cases [OF ok len, of 2000000] h
  obtain c1 where c1: "record_time_shift scenario_config 2000000 one_sample = Inr c1"
    "head_time_bucket c1 = time_bucket scenario_config 2000000"
    by auto
  have g: "time_bucket scenario_config 1000000 \<le> head_time_bucket c1"
    "head_time_bucket c1 < time_bucket scenario_config 1000000 + of_nat (NUM_SLOTS scenario_config)"
    by (simp_all add: c1(2) scenario_bucket scenario_NUM_SLOTS)
  from record_time_in_bounds [OF ok len, of 2000000 1000000 20] c1(1) g
  have "record_time scenario_config 2000000 one_sample 1000000 20 \<noteq> Inl OutOfBounds"
    and "unat (head_time_bucket c1 - time_bucket scenario_config 1000000) < NUM_SLOTS scenario_config"
    and "unat (head_time_bucket c1 - time_bucket scenario_config 1000000) < length (slots c1)"
    by blast+
  with ok len c1(1) g show ?thesis by blast
qed

text \<open>
  Claim C4. Let the clock not be behind \<open>head_time_bucket\<close>, or the program be
  compiled with \<open>NDEBUG\<close> (otherwise the \<open>assert\<close> of line 111 stops the call), so
  that the ring moves to the slot of the clock. If the slot
  of the sample lies outside \<open>[head_time_bucket - NUM_SLOTS + 1, head_time_bucket]\<close>,
  read in the integers, for the head after the move, then \<open>record_time\<close> returns normally
  and its result is the collector as the move alone leaves it: no slot is written, and
  every later \<open>accumulate_stats\<close> returns what it returns without the sample.
\<close>

theorem record_time_drops_out_of_range:
  fixes c :: "('c::len) word ProfilingCollector"
  assumes ok: "config_ok cfg" and len: "length (slots c) = NUM_SLOTS cfg"
    and mono: "NDEBUG cfg \<or> head_time_bucket c \<le> time_bucket cfg now_us"
    and out: "int (unat (time_bucket cfg begin_time))
                < int (unat (time_bucket cfg now_us)) - int (NUM_SLOTS cfg) + 1
            \<or> time_bucket cfg now_us < time_bucket cfg begin_time"
  shows "\<exists>c1. record_time_shift cfg now_us c = Inr c1
            \<and> head_time_bucket c1 = time_bucket cfg now_us
            \<and> record_time cfg now_us c begin_time duration = Inr c1
            \<and> (\<forall>w. (case record_time cfg now_us c begin_time duration of
                       Inr c2 \<Rightarrow> accumulate_stats cfg c2 w | Inl e \<Rightarrow> None)
                    = accumulate_stats cfg c1 w)"
proof -
  from record_time_shift_cases [OF ok len, of now_us] mono
  obtain c1 where r: "record_time_shift cfg now_us c = Inr c1"
    and l: "length (slots c1) = NUM_SLOTS cfg"
    and h: "head_time_bucket c1 = time_bucket cfg now_us"
    by auto
  let ?b = "time_bucket cfg begin_time" and ?n = "time_bucket cfg now_us"
  have guard: "\<not> (?b \<le> ?n \<and> ?n < ?b + of_nat (NUM_SLOTS cfg))"
  proof (cases "?n < ?b")
    case True
    then show ?thesis by auto
  next
    case False
    with out have old: "unat ?b + NUM_SLOTS cfg \<le> unat ?n" by linarith
    have "unat ?n < 2 ^ 64" using unsigned_less [of ?n] by simp
    with old have "unat ?b + unat (of_nat (NUM_SLOTS cfg) :: u64) < 2 ^ 64"
      by (simp add: unat_NUM_SLOTS [OF ok])
    then have "unat (?b + of_nat (NUM_SLOTS cfg)) = unat ?b + NUM_SLOTS cfg"
      using unat_add_lem [of ?b "of_nat (NUM_SLOTS cfg)"] by (simp add: unat_NUM_SLOTS [OF ok])
    with old show ?thesis by (simp add: word_less_nat_alt)
  qed
  have "record_time_store cfg c1 begin_time duration = Inr c1"
    by (simp only: record_time_store_cases [OF l] h if_not_P [OF guard])
  then have "record_time cfg now_us c begin_time duration = Inr c1"
    by (simp add: record_time_def r)
  then show ?thesis using r h by simp
qed

theorem record_time_drops_out_of_range_witness:
  "config_ok scenario_config
   \<and> length (slots one_sample) = NUM_SLOTS scenario_config
   \<and> head_time_bucket one_sample \<le> time_bucket scenario_config 7000000
   \<and> int (unat (time_bucket scenario_config 1000000))
        < int (unat (time_bucket scenario_config 7000000)) - int (NUM_SLOTS scenario_config) + 1
   \<and> time_bucket scenario_config 7000000 < time_bucket scenario_config 9000000
   \<and> (\<exists>c1. record_time_shift scenario_config 7000000 one_sample = Inr c1
         \<and> record_time scenario_config 7000000 one_sample 1000000 20 = Inr c1
         \<and> record_time scenario_config 7000000 one_sample 9000000 20 = Inr c1)"
proof -
  note ok = scenario_config_ok and len = one_sample_len
  have mono: "head_time_bucket one_sample \<le> time_bucket scenario_config 7000000"
    by (simp add: one_sample_def scenario_bucket)
  have old: "int (unat (time_bucket scenario_config 1000000))
        < int (unat (time_bucket scenario_config 7000000)) - int (NUM_SLOTS scenario_config) + 1"
    by (simp add: scenario_bucket scenario_NUM_SLOTS)
  have future: "time_bucket scenario_config 7000000 < time_bucket scenario_config 9000000"
    by (simp add: scenario_bucket)
  from record_time_drops_out_of_range [OF ok len disjI2 [OF mono] disjI1 [OF old], of 20]
  obtain c1 where a: "record_time_shift scenario_config 7000000 one_sample = Inr c1"
    "record_time scenario_config 7000000 one_sample 1000000 20 = Inr c1"
    by blast
  from record_time_drops_out_of_range [OF ok len disjI2 [OF mono] disjI2 [OF future], of 20]
  obtain c1' where b: "record_time_shift scenario_config 7000000 one_sample = Inr c1'"
    "record_time scenario_config 7000000 one_sample 9000000 20 = Inr c1'"
    by blast
  from a(1) b(1) have "c1' = c1" by simp
  with ok len mono old future a b show ?thesis by blast
qed

subsection \<open>The run with slots of one second\<close>

lemma fresh_collector_eq:
  "fresh_collector = \<lparr>key = ''probe'', head_time_bucket = 0,
      slots = [Stats_init, Stats_init, Stats_init, Stats_init, Stats_init]\<rparr>"
  by (simp add: fresh_collector_def ProfilingCollector_init_def scenario_config_def eval_nat_numeral)

lemma fresh_collector_len: "length (slots fresh_collector) = NUM_SLOTS scenario_config"
  by (simp add: fresh_collector_eq scenario_NUM_SLOTS)

lemma Stats_record_time_init:
  "Stats_record_time (Stats_init :: 32 word Stats) d
     = \<lparr>min_time = d, max_time = d, total_time = d, num_samples = 1\<rparr>"
  by (simp add: Stats_record_time_def Stats_init_def)

lemma first_record: "record_time scenario_config 0 fresh_collector 0 10 = Inr one_sample"
proof -
  have sh: "record_time_shift scenario_config 0 fresh_collector = Inr fresh_collector"
    by (rule record_time_shift_same) (simp add: scenario_bucket fresh_collector_eq)
  show ?thesis
    unfolding record_time_def sh
    by (simp add: record_time_store_def scenario_bucket
        scenario_NUM_SLOTS fresh_collector_eq one_sample_def Stats_record_time_init)
qed

lemma one_sample_shift:
  "record_time_shift scenario_config 1000000 one_sample =
    Inr \<lparr>key = ''probe'', head_time_bucket = 1,
      slots = [Stats_init,
               \<lparr>min_time = 10, max_time = 10, total_time = 10, num_samples = 1\<rparr>,
               Stats_init, Stats_init, Stats_init]\<rparr>"
proof -
  have lt: "head_time_bucket one_sample < time_bucket scenario_config 1000000"
    by (simp add: one_sample_def scenario_bucket)
  show ?thesis
    unfolding record_time_shift_closed [OF scenario_config_ok one_sample_len lt]
    by (simp add: scenario_bucket scenario_NUM_SLOTS one_sample_def eval_nat_numeral)
qed

lemma second_record_clock:
  "record_time scenario_config 1000000 one_sample 1000000 20 =
    Inr \<lparr>key = ''probe'', head_time_bucket = 1,
      slots = [\<lparr>min_time = 20, max_time = 20, total_time = 20, num_samples = 1\<rparr>,
               \<lparr>min_time = 10, max_time = 10, total_time = 10, num_samples = 1\<rparr>,
               Stats_init, Stats_init, Stats_init]\<rparr>"
  unfolding record_time_def one_sample_shift
  by (simp add: record_time_store_def scenario_bucket scenario_NUM_SLOTS Stats_record_time_init)

lemma accumulate_clock:
  "accumulate_stats scenario_config
     \<lparr>key = ''probe'', head_time_bucket = 1,
      slots = [\<lparr>min_time = 20, max_time = 20, total_time = 20, num_samples = 1\<rparr>,
               \<lparr>min_time = 10, max_time = 10, total_time = 10, num_samples = 1\<rparr>,
               Stats_init, Stats_init, (Stats_init :: 32 word Stats)]\<rparr> 5000
   = Some \<lparr>min_time = 10, max_time = 10, total_time = 10, num_samples = 1\<rparr>"
  by (subst accumulate_stats_merged [OF scenario_config_ok])
     (simp_all add: merged_window_def scenario_config_def upt_conv_Cons
        Stats_add_assign_def Stats_init_def)

text \<open>
  Claim C3. With \<open>SLOT_DURATION_MS = 1000\<close> and \<open>NUM_SLOTS = 5\<close>, from a fresh
  collector: \<open>record_time\<close> of the sample that begins at time 0 and lasts 10, with the
  clock at 0; then \<open>record_time\<close> of the sample that begins at the time 1000
  milliseconds and lasts 20, with the clock at 1000 milliseconds; then
  \<open>accumulate_stats\<close> over 5000 milliseconds gives minimum 10, maximum 10, average 10
  and one sample. Only the slot of the first sample is counted; the second sample is in
  slot 0. (\<open>record_time\<close> takes its times in microseconds: 1000 milliseconds are
  1000000.)
\<close>

theorem scenario_clock_start:
  "scenario 1000000 1000000 20 5000 = Inr (Some (10, 10, 10, 1))"
  by (simp add: scenario_def two_records_def first_record second_record_clock
      accumulate_clock summary_def get_avg_time_def)

subsection \<open>A gap of the whole window between two samples\<close>

lemma foldl_add_assign_init:
  "foldl Stats_add_assign a (replicate n Stats_init) = a"
  by (induction n) (simp_all add: add_assign_identity Stats_init_def)

lemma merged_window_all_init:
  assumes "\<forall>i. 1 \<le> i \<longrightarrow> i < NUM_SLOTS cfg \<longrightarrow> xs ! i = Stats_init"
  shows "merged_window cfg xs w = Stats_init"
proof -
  let ?e = "min (1 + unat w div SLOT_DURATION_MS cfg) (NUM_SLOTS cfg)"
  have "map (\<lambda>i. xs ! i) [1 ..< ?e] = map (\<lambda>i. Stats_init) [1 ..< ?e]"
    using assms by (intro map_cong) auto
  then have "map (\<lambda>i. xs ! i) [1 ..< ?e] = replicate (?e - 1) Stats_init"
    by (simp add: map_replicate_const)
  then show ?thesis
    unfolding merged_window_def by (simp only: foldl_add_assign_init)
qed

lemma time_bucket_advance:
  assumes ok: "config_ok cfg"
    and adv: "unat t1 + NUM_SLOTS cfg * SLOT_DURATION_MS cfg * 1000 \<le> unat t2"
  shows "unat (time_bucket cfg t1) + NUM_SLOTS cfg \<le> unat (time_bucket cfg t2)"
proof -
  let ?D = "SLOT_DURATION_MS cfg * 1000"
  have D: "0 < ?D" using ok by (simp add: config_ok_def)
  have "(unat t1 + NUM_SLOTS cfg * ?D) div ?D \<le> unat t2 div ?D"
    using adv by (intro div_le_mono) (simp add: mult.assoc)
  moreover have "(unat t1 + NUM_SLOTS cfg * ?D) div ?D = unat t1 div ?D + NUM_SLOTS cfg"
    using D by simp
  ultimately show ?thesis by (simp add: unat_time_bucket [OF ok])
qed

lemma record_time_result:
  fixes c :: "('c::len) word ProfilingCollector"
  assumes ok: "config_ok cfg" and len: "length (slots c) = NUM_SLOTS cfg"
    and r: "record_time cfg now_us c begin_time duration = Inr c1"
  shows "head_time_bucket c1 = time_bucket cfg now_us \<and> length (slots c1) = NUM_SLOTS cfg"
proof -
  from record_time_shift_cases [OF ok len, of now_us] r
  obtain c' where s: "record_time_shift cfg now_us c = Inr c'"
    and l: "length (slots c') = NUM_SLOTS cfg"
    and h: "head_time_bucket c' = time_bucket cfg now_us"
    by (auto simp add: record_time_def)
  from r have "record_time_store cfg c' begin_time duration = Inr c1"
    by (simp add: record_time_def s)
  then show ?thesis using l h
    by (auto simp add: record_time_store_cases [OF l] split: if_splits)
qed

lemma too_old_guard:
  fixes b n :: u64
  assumes ok: "config_ok cfg" and old: "unat b + NUM_SLOTS cfg \<le> unat n"
  shows "\<not> n < b + of_nat (NUM_SLOTS cfg)"
proof -
  have "unat n < 2 ^ 64" using unsigned_less [of n] by simp
  with old have "unat b + unat (of_nat (NUM_SLOTS cfg) :: u64) < 2 ^ 64"
    by (simp add: unat_NUM_SLOTS [OF ok])
  then have "unat (b + of_nat (NUM_SLOTS cfg)) = unat b + NUM_SLOTS cfg"
    using unat_add_lem [of b "of_nat (NUM_SLOTS cfg)"] by (simp add: unat_NUM_SLOTS [OF ok])
  with old show ?thesis by (simp add: word_less_nat_alt)
qed

text \<open>
  Claim C5, as the code has it. After a call of \<open>record_time\<close> that returns, let the
  clock advance by at least \<open>NUM_SLOTS * SLOT_DURATION_MS\<close> milliseconds before the
  next call, and let the second sample begin in the slot of the clock (or later, or before
  the window that is kept). Then the second call returns and \<open>accumulate_stats\<close> right
  after it has a counter of 0 for every window: the history is cleared and the new sample
  is in slot 0 or dropped.
\<close>

theorem record_after_gap_clears:
  fixes c0 :: "('c::len) word ProfilingCollector"
  assumes ok: "config_ok cfg" and len: "length (slots c0) = NUM_SLOTS cfg"
    and first: "record_time cfg t1 c0 b1 d1 = Inr c1"
    and adv: "unat t1 + NUM_SLOTS cfg * SLOT_DURATION_MS cfg * 1000 \<le> unat t2"
    and cur: "time_bucket cfg t2 \<le> time_bucket cfg b2
            \<or> unat (time_bucket cfg b2) + NUM_SLOTS cfg \<le> unat (time_bucket cfg t2)"
  shows "\<exists>c2. record_time cfg t2 c1 b2 d2 = Inr c2
           \<and> (\<forall>w. map_option num_samples (accumulate_stats cfg c2 w) = Some 0)"
proof -
  let ?N = "NUM_SLOTS cfg" and ?n = "time_bucket cfg t2" and ?b = "time_bucket cfg b2"
  from record_time_result [OF ok len first]
  have h1: "head_time_bucket c1 = time_bucket cfg t1" and l1: "length (slots c1) = ?N"
    by simp_all
  have Npos: "0 < ?N" using ok by (simp add: config_ok_def)
  have gap: "unat (head_time_bucket c1) + ?N \<le> unat ?n"
    unfolding h1 by (rule time_bucket_advance [OF ok adv])
  then have lt: "head_time_bucket c1 < ?n"
    using Npos by (simp add: word_less_nat_alt)
  then have "unat (?n - head_time_bucket c1) = unat ?n - unat (head_time_bucket c1)"
    by (simp add: unat_sub)
  with gap have big: "?N \<le> unat (?n - head_time_bucket c1)" by simp
  define c' where "c' = c1\<lparr>slots := replicate ?N Stats_init, head_time_bucket := ?n\<rparr>"
  have sh: "record_time_shift cfg t2 c1 = Inr c'"
    using big by (simp add: record_time_shift_closed [OF ok l1 lt] min_absorb2 c'_def)
  have l': "length (slots c') = ?N" and h': "head_time_bucket c' = ?n"
    and s': "slots c' = replicate ?N Stats_init"
    by (simp_all add: c'_def)
  have "\<exists>c2. record_time_store cfg c' b2 d2 = Inr c2 \<and> length (slots c2) = ?N
          \<and> (\<forall>i. 1 \<le> i \<longrightarrow> i < ?N \<longrightarrow> slots c2 ! i = Stats_init)"
  proof (cases "?b \<le> ?n \<and> ?n < ?b + of_nat ?N")
    case False
    have "record_time_store cfg c' b2 d2 = Inr c'"
      by (simp only: record_time_store_cases [OF l'] h' if_not_P [OF False])
    then show ?thesis using l' s' by simp
  next
    case True
    with cur too_old_guard [OF ok, of ?b ?n] have bn: "?b = ?n" by auto
    have "record_time_store cfg c' b2 d2
        = Inr (c'\<lparr>slots := (slots c')[unat (?n - ?b) := Stats_record_time (slots c' ! unat (?n - ?b)) d2]\<rparr>)"
      by (simp only: record_time_store_cases [OF l'] h' if_P [OF True])
    then show ?thesis using l' s' bn by simp
  qed
  then obtain c2 where c2: "record_time_store cfg c' b2 d2 = Inr c2"
    and l2: "length (slots c2) = ?N"
    and rest: "\<forall>i. 1 \<le> i \<longrightarrow> i < ?N \<longrightarrow> slots c2 ! i = Stats_init"
    by blast
  have r2: "record_time cfg t2 c1 b2 d2 = Inr c2"
    by (simp add: record_time_def sh c2)
  have "accumulate_stats cfg c2 w = Some Stats_init" for w
    by (simp add: accumulate_stats_merged [OF ok l2] merged_window_all_init [OF rest])
  then have "\<forall>w. map_option num_samples (accumulate_stats cfg c2 w) = Some 0"
    by (simp add: Stats_init_def)
  with r2 show ?thesis by blast
qed

theorem record_after_gap_clears_witness:
  "config_ok scenario_config
   \<and> length (slots fresh_collector) = NUM_SLOTS scenario_config
   \<and> record_time scenario_config 0 fresh_collector 0 10 = Inr one_sample
   \<and> unat (0 :: u64) + NUM_SLOTS scenario_config * SLOT_DURATION_MS scenario_config * 1000
        \<le> unat (7000000 :: u64)
   \<and> time_bucket scenario_config 7000000 \<le> time_bucket scenario_config 7000000
   \<and> (\<exists>c2. record_time scenario_config 7000000 one_sample 7000000 20 = Inr c2
         \<and> map_option num_samples (accumulate_stats scenario_config c2 5000) = Some 0)"
proof -
  note ok = scenario_config_ok and len = fresh_collector_len
  have adv: "unat (0 :: u64) + NUM_SLOTS scenario_config * SLOT_DURATION_MS scenario_config * 1000
        \<le> unat (7000000 :: u64)"
    by (simp add: scenario_config_def)
  have cur: "time_bucket scenario_config 7000000 \<le> time_bucket scenario_config 7000000"
    by simp
  from record_after_gap_clears [OF ok len first_record adv disjI1 [OF cur], of 20]
  have "\<exists>c2. record_time scenario_config 7000000 one_sample 7000000 20 = Inr c2
         \<and> map_option num_samples (accumulate_stats scenario_config c2 5000) = Some 0"
    by blast
  with ok len first_record adv cur show ?thesis by blast
qed

lemma one_sample_shift_far:
  "record_time_shift scenario_config 10000000 one_sample =
    Inr \<lparr>key = ''probe'', head_time_bucket = 10,
      slots = [Stats_init, Stats_init, Stats_init, Stats_init, Stats_init]\<rparr>"
proof -
  have lt: "head_time_bucket one_sample < time_bucket scenario_config 10000000"
    by (simp add: one_sample_def scenario_bucket)
  have sh: "unat (time_bucket scenario_config 10000000 - head_time_bucket one_sample) = 10"
    by (simp add: one_sample_def scenario_bucket)
  have r: "replicate 5 (Stats_init :: 32 word Stats)
      = [Stats_init, Stats_init, Stats_init, Stats_init, Stats_init]"
    by (simp add: eval_nat_numeral)
  show ?thesis
    unfolding record_time_shift_closed [OF scenario_config_ok one_sample_len lt] sh
    by (simp add: scenario_bucket scenario_NUM_SLOTS r) (simp add: one_sample_def)
qed

lemma second_record_long:
  "record_time scenario_config 10000000 one_sample 9000000 1000000 =
    Inr \<lparr>key = ''probe'', head_time_bucket = 10,
      slots = [Stats_init,
               \<lparr>min_time = 1000000, max_time = 1000000, total_time = 1000000, num_samples = 1\<rparr>,
               Stats_init, Stats_init, Stats_init]\<rparr>"
  unfolding record_time_def one_sample_shift_far
  by (simp add: record_time_store_def scenario_bucket scenario_NUM_SLOTS Stats_record_time_init)

lemma accumulate_long:
  "accumulate_stats scenario_config
     \<lparr>key = ''probe'', head_time_bucket = 10,
      slots = [Stats_init,
               \<lparr>min_time = 1000000, max_time = 1000000, total_time = 1000000, num_samples = 1\<rparr>,
               Stats_init, Stats_init, (Stats_init :: 32 word Stats)]\<rparr> 5000
   = Some \<lparr>min_time = 1000000, max_time = 1000000, total_time = 1000000, num_samples = 1\<rparr>"
  by (subst accumulate_stats_merged [OF scenario_config_ok])
     (simp_all add: merged_window_def scenario_config_def upt_conv_Cons
        Stats_add_assign_def Stats_init_def)

text \<open>
  Claim C5 as it is stated fails on the code: the slot of a sample is the slot of its
  begin, not of the clock at the call. After a gap of ten seconds, a sample that began one
  second before the call (as \<open>AutoBlockProfiler\<close> hands in for a block that ran for a
  second) is stored in slot 1, and \<open>accumulate_stats\<close> counts it.
\<close>

theorem record_after_gap_counterexample:
  "unat (0 :: u64) + NUM_SLOTS scenario_config * SLOT_DURATION_MS scenario_config * 1000
     \<le> unat (10000000 :: u64)
   \<and> scenario 10000000 9000000 1000000 5000 = Inr (Some (1000000, 1000000, 1000000, 1))"
proof -
  have "unat (0 :: u64) + NUM_SLOTS scenario_config * SLOT_DURATION_MS scenario_config * 1000
     \<le> unat (10000000 :: u64)"
    by (simp add: scenario_config_def)
  moreover have "scenario 10000000 9000000 1000000 5000
      = Inr (Some (1000000, 1000000, 1000000, 1))"
    by (simp add: scenario_def two_records_def first_record second_record_long
        accumulate_long summary_def get_avg_time_def)
  ultimately show ?thesis by blast
qed

section \<open>Properties of the list of collectors\<close>

lemma get_collectors_construct:
  "get_collectors (ProfilingCollector_construct r p) = get_collectors r @ [p]"
  by (simp add: get_collectors_def ProfilingCollector_construct_def split: option.splits)

lemma destruct_live:
  assumes "p \<in> set (get_collectors r)"
  shows "\<exists>r'. ProfilingCollector_destruct r p = Inr r'
           \<and> get_collectors r' = remove1 p (get_collectors r)"
  using assms
  by (auto simp add: get_collectors_def ProfilingCollector_destruct_def Let_def
      split: option.splits)

lemma destruct_gone:
  assumes "p \<notin> set (get_collectors r)"
  shows "ProfilingCollector_destruct r p = Inl NullPointer
       \<or> ProfilingCollector_destruct r p = Inl InvalidIterator"
  using assms
  by (auto simp add: get_collectors_def ProfilingCollector_destruct_def split: option.splits)

lemma registry_run_live:
  "distinct (get_collectors r) \<Longrightarrow> lifetimes_ok (set (get_collectors r)) es \<Longrightarrow>
   \<exists>r'. registry_run r es = Inr r'
      \<and> get_collectors r' = filter (\<lambda>p. Destroy p \<notin> set es) (get_collectors r) @ live_in_order es"
proof (induction es arbitrary: r)
  case Nil
  then show ?case by simp
next
  case (Cons e es)
  show ?case
  proof (cases e)
    case (Construct p)
    let ?r1 = "ProfilingCollector_construct r p"
    from Cons.prems Construct have fresh: "p \<notin> set (get_collectors r)"
      and rest: "lifetimes_ok (insert p (set (get_collectors r))) es" by simp_all
    have d: "distinct (get_collectors ?r1)"
      using Cons.prems(1) fresh by (simp add: get_collectors_construct)
    have l: "lifetimes_ok (set (get_collectors ?r1)) es"
      using rest by (simp add: get_collectors_construct)
    from Cons.IH [OF d l] obtain r' where r': "registry_run ?r1 es = Inr r'"
      "get_collectors r' = filter (\<lambda>q. Destroy q \<notin> set es) (get_collectors ?r1) @ live_in_order es"
      by blast
    have "registry_run r (e # es) = Inr r'"
      using r'(1) Construct by simp
    moreover have "get_collectors r'
        = filter (\<lambda>q. Destroy q \<notin> set (e # es)) (get_collectors r) @ live_in_order (e # es)"
      using r'(2) Construct by (simp add: get_collectors_construct)
    ultimately show ?thesis by blast
  next
    case (Destroy p)
    from Cons.prems Destroy have live: "p \<in> set (get_collectors r)"
      and rest: "lifetimes_ok (set (get_collectors r) - {p}) es" by simp_all
    from destruct_live [OF live] obtain r1 where r1: "ProfilingCollector_destruct r p = Inr r1"
      "get_collectors r1 = remove1 p (get_collectors r)" by blast
    have d: "distinct (get_collectors r1)"
      using Cons.prems(1) by (simp add: r1(2))
    have l: "lifetimes_ok (set (get_collectors r1)) es"
      using rest Cons.prems(1) by (simp add: r1(2))
    from Cons.IH [OF d l] obtain r' where r': "registry_run r1 es = Inr r'"
      "get_collectors r' = filter (\<lambda>q. Destroy q \<notin> set es) (get_collectors r1) @ live_in_order es"
      by blast
    have "registry_run r (e # es) = Inr r'"
      using r'(1) r1(1) Destroy by simp
    moreover have "filter (\<lambda>q. Destroy q \<notin> set es) (remove1 p (get_collectors r))
        = filter (\<lambda>q. Destroy q \<notin> set (e # es)) (get_collectors r)"
      using Cons.prems(1) Destroy
      by (auto simp add: distinct_remove1_removeAll removeAll_filter_not_eq intro: filter_cong)
    ultimately show ?thesis using r'(2) r1(2) Destroy by simp
  qed
qed

text \<open>
  Claim C8. For every sequence of constructions and destructions of collectors that
  respects the lifetimes of objects, from the empty registry on, no step fails and
  \<open>get_collectors\<close> returns the live collectors in registration order. In particular,
  after the construction of three collectors \<open>a\<close>, \<open>b\<close>, \<open>c\<close> it returns
  \<open>[a, b, c]\<close>, and after the destruction of the middle one it returns \<open>[a, c]\<close>.
\<close>

theorem get_collectors_registration_order:
  "(lifetimes_ok {} es \<longrightarrow>
      (\<exists>r. registry_run None es = Inr r \<and> get_collectors r = live_in_order es))
   \<and> (distinct [a, b, c] \<longrightarrow>
      (\<exists>r3 r2. registry_run None [Construct a, Construct b, Construct c] = Inr r3
         \<and> get_collectors r3 = [a, b, c]
         \<and> ProfilingCollector_destruct r3 b = Inr r2
         \<and> get_collectors r2 = [a, c]))"
proof (intro conjI impI)
  assume "lifetimes_ok {} es"
  then show "\<exists>r. registry_run None es = Inr r \<and> get_collectors r = live_in_order es"
    using registry_run_live [of None es] by (simp add: get_collectors_def)
next
  assume "distinct [a, b, c]"
  then show "\<exists>r3 r2. registry_run None [Construct a, Construct b, Construct c] = Inr r3
         \<and> get_collectors r3 = [a, b, c]
         \<and> ProfilingCollector_destruct r3 b = Inr r2
         \<and> get_collectors r2 = [a, c]"
    by (auto simp add: ProfilingCollector_construct_def ProfilingCollector_destruct_def
        get_collectors_def)
qed

theorem get_collectors_registration_order_witness:
  "lifetimes_ok {} [Construct 1, Construct 2, Construct 3, Destroy 2, Construct 4, Destroy 1]
   \<and> distinct [1, 2, 3 :: ptr]
   \<and> (\<exists>r. registry_run None [Construct 1, Construct 2, Construct 3, Destroy 2, Construct 4, Destroy 1]
           = Inr r \<and> get_collectors r = [3, 4])
   \<and> (\<exists>r3 r2. registry_run None [Construct 1, Construct 2, Construct 3] = Inr r3
         \<and> get_collectors r3 = [1, 2, 3]
         \<and> ProfilingCollector_destruct r3 2 = Inr r2
         \<and> get_collectors r2 = [1, 3])"
proof -
  let ?es = "[Construct 1, Construct 2, Construct 3, Destroy 2, Construct 4, Destroy 1]"
  have l: "lifetimes_ok {} ?es" by simp
  have d: "distinct [1, 2, 3 :: ptr]" by simp
  have v: "live_in_order ?es = [3, 4]" by simp
  from get_collectors_registration_order [of ?es 1 2 3] l d v
  have "(\<exists>r. registry_run None ?es = Inr r \<and> get_collectors r = [3, 4])"
    and "(\<exists>r3 r2. registry_run None [Construct 1, Construct 2, Construct 3] = Inr r3
         \<and> get_collectors r3 = [1, 2, 3]
         \<and> ProfilingCollector_destruct r3 2 = Inr r2
         \<and> get_collectors r2 = [1, 3])"
    by simp_all
  with l d show ?thesis by blast
qed

text \<open>
  Claim C9, as the code has it. The destructor removes the entry of a collector that is in
  the list and keeps the others in their order. For a collector whose entry is not in the
  list it does not return normally: it calls \<open>erase\<close> through the null pointer when the
  list has been freed, and with an invalid iterator otherwise. So a second destruction of
  the same collector, right after the first, is one of these two errors.
\<close>

theorem destruct_once:
  "(this \<in> set (get_collectors r) \<longrightarrow>
      (\<exists>r'. ProfilingCollector_destruct r this = Inr r'
         \<and> get_collectors r' = remove1 this (get_collectors r)))
   \<and> (this \<notin> set (get_collectors r) \<longrightarrow>
      (ProfilingCollector_destruct r this = Inl NullPointer
       \<or> ProfilingCollector_destruct r this = Inl InvalidIterator))
   \<and> (distinct (get_collectors r) \<longrightarrow> ProfilingCollector_destruct r this = Inr r1 \<longrightarrow>
      (ProfilingCollector_destruct r1 this = Inl NullPointer
       \<or> ProfilingCollector_destruct r1 this = Inl InvalidIterator))"
proof (intro conjI impI)
  assume "this \<in> set (get_collectors r)"
  then show "\<exists>r'. ProfilingCollector_destruct r this = Inr r'
         \<and> get_collectors r' = remove1 this (get_collectors r)"
    by (rule destruct_live)
next
  assume "this \<notin> set (get_collectors r)"
  then show "ProfilingCollector_destruct r this = Inl NullPointer
       \<or> ProfilingCollector_destruct r this = Inl InvalidIterator"
    by (rule destruct_gone)
next
  assume d: "distinct (get_collectors r)" and r1: "ProfilingCollector_destruct r this = Inr r1"
  have live: "this \<in> set (get_collectors r)"
    using destruct_gone [of this r] r1 by auto
  from destruct_live [OF live] r1 have "get_collectors r1 = remove1 this (get_collectors r)"
    by auto
  then have "this \<notin> set (get_collectors r1)" using d by simp
  then show "ProfilingCollector_destruct r1 this = Inl NullPointer
       \<or> ProfilingCollector_destruct r1 this = Inl InvalidIterator"
    by (rule destruct_gone)
qed

theorem destruct_once_witness:
  "2 \<in> set (get_collectors (Some [1, 2, 3]))
   \<and> distinct (get_collectors (Some [1, 2, 3]))
   \<and> ProfilingCollector_destruct (Some [1, 2, 3]) 2 = Inr (Some [1, 3])
   \<and> get_collectors (Some [1, 3]) = remove1 2 (get_collectors (Some [1, 2, 3]))
   \<and> 2 \<notin> set (get_collectors (Some [1, 3]))
   \<and> ProfilingCollector_destruct (Some [1, 3]) 2 = Inl InvalidIterator"
proof -
  have a: "2 \<in> set (get_collectors (Some [1, 2, 3]))"
    and d: "distinct (get_collectors (Some [1, 2, 3]))"
    and g: "get_collectors (Some [1, 3]) = remove1 2 (get_collectors (Some [1, 2, 3]))"
    and n: "2 \<notin> set (get_collectors (Some [1, 3]))"
    by (simp_all add: get_collectors_def)
  have s: "ProfilingCollector_destruct (Some [1, 2, 3]) 2 = Inr (Some [1, 3])"
    by (simp add: ProfilingCollector_destruct_def)
  have nn: "ProfilingCollector_destruct (Some [1, 3]) 2 \<noteq> Inl NullPointer"
    by (simp add: ProfilingCollector_destruct_def)
  from destruct_once [of 2 "Some [1, 2, 3]" "Some [1, 3]"] d s nn
  have "ProfilingCollector_destruct (Some [1, 3]) 2 = Inl InvalidIterator" by blast
  with a d g n s show ?thesis by blast
qed

text \<open>
  Claim C9 as it is stated fails on the code: the destructor has no check. After the only
  collector is destroyed the list is freed, and a second destruction goes through the null
  pointer; with another collector alive it erases an iterator that is no longer valid.
\<close>

theorem destruct_twice_counterexample:
  "registry_run None [Construct 1, Destroy 1] = Inr None
   \<and> ProfilingCollector_destruct None 1 = Inl NullPointer
   \<and> registry_run None [Construct 1, Destroy 1, Destroy 1] = Inl NullPointer
   \<and> registry_run None [Construct 1, Construct 2, Destroy 1, Destroy 1] = Inl InvalidIterator"
  by (simp add: ProfilingCollector_construct_def ProfilingCollector_destruct_def)

end
